theory Spec2Isabelle
  imports Complex_Main "HOL-Library.Word" "HOL-Library.AList" "HOL-Library.List_Lexorder"
    "HOL-Library.Char_ord"
begin

unbundle bit_operations_syntax

section \<open>Go values used by package ocrschema\<close>

text \<open>
  The package \<^verbatim>\<open>ocrschema\<close> (file \<^verbatim>\<open>internal/pkg/ocrschema/schema.go\<close>) is embedded
  function by function. A Go function that can panic returns a sum: \<open>Inl\<close> carries the
  run-time panic, \<open>Inr\<close> the value returned. A Go \<^verbatim>\<open>error\<close> result is an
  \<open>error option\<close>, \<open>None\<close> standing for \<^verbatim>\<open>nil\<close>. A pointer is an \<open>option\<close>, \<open>None\<close>
  standing for the nil pointer. Go's \<^verbatim>\<open>int\<close> is 64 bits wide; it is an \<open>int\<close> here and the
  one addition of the package wraps explicitly. Calls of \<^verbatim>\<open>log.Debugf\<close> do not
  influence any result and are left out.
\<close>

datatype panic = NilDereference | IndexOutOfRange | TypeAssertion

datatype error =
    ErrSyntax             \<comment> \<open>strconv: the string is empty or has an invalid digit\<close>
  | ErrRange              \<comment> \<open>strconv: the value does not fit the bit size\<close>
  | NilImageError         \<comment> \<open>goimagehash: "Image object can not be nil"\<close>
  | KindError             \<comment> \<open>goimagehash: "Image hashes's kind should be identical"\<close>
  | SyntaxError           \<comment> \<open>encoding/json: the bytes are not a JSON document\<close>
  | UnmarshalTypeError    \<comment> \<open>encoding/json: a JSON value does not fit the Go type\<close>
  | PathError             \<comment> \<open>os: the file could not be opened or read\<close>
  | CropError             \<comment> \<open>imgutils: the image could not be cropped\<close>

type_synonym uint64 = "64 word"

subsection \<open>strconv.ParseUint at base 16 and bit size 64\<close>

text \<open>
  The standard library's loop, specialised to the two constants the package passes
  (\<^verbatim>\<open>base = 16\<close>, \<^verbatim>\<open>bitSize = 64\<close>, so underscores and prefixes are not accepted).
  \<open>digit_val\<close> is the switch that turns a byte into its digit: \<^verbatim>\<open>'0'..'9'\<close> give 0 to 9,
  a letter of either case gives 10 to 35, any other byte is a syntax error.
\<close>

definition digit_val :: "char \<Rightarrow> nat option" where
  "digit_val c =
     (let n = of_char c :: nat in
      if 48 \<le> n \<and> n \<le> 57 then Some (n - 48)
      else if 97 \<le> n \<and> n \<le> 122 then Some (n - 97 + 10)
      else if 65 \<le> n \<and> n \<le> 90 then Some (n - 65 + 10)
      else None)"

definition cutoff :: uint64 where
  "cutoff = 0x1000000000000000"  \<comment> \<open>\<^verbatim>\<open>maxUint64/16 + 1\<close>\<close>

definition maxVal :: uint64 where
  "maxVal = 0xFFFFFFFFFFFFFFFF"  \<comment> \<open>\<^verbatim>\<open>1<<64 - 1\<close>\<close>

fun ParseUint_loop :: "uint64 \<Rightarrow> string \<Rightarrow> uint64 \<times> error option" where
  "ParseUint_loop n [] = (n, None)"
| "ParseUint_loop n (c # cs) =
     (case digit_val c of
        None \<Rightarrow> (0, Some ErrSyntax)
      | Some d \<Rightarrow>
          if d \<ge> 16 then (0, Some ErrSyntax)
          else if n \<ge> cutoff then (maxVal, Some ErrRange)
          else
            let n' = n * 16;
                n1 = n' + of_nat d
            in if n1 < n' \<or> n1 > maxVal then (maxVal, Some ErrRange)
               else ParseUint_loop n1 cs)"

definition ParseUint :: "string \<Rightarrow> uint64 \<times> error option" where
  "ParseUint s = (if s = [] then (0, Some ErrSyntax) else ParseUint_loop 0 s)"

subsection \<open>goimagehash: image hashes and their distance\<close>

datatype Kind = Unknown | AHash | PHash | DHash | WHash

record ImageHash =
  hash :: uint64
  kind :: Kind

definition NewImageHash :: "uint64 \<Rightarrow> Kind \<Rightarrow> ImageHash option" where
  "NewImageHash h k = Some \<lparr>hash = h, kind = k\<rparr>"

text \<open>The number of one bits of a 64-bit value (\<^verbatim>\<open>popcnt\<close> in goimagehash).\<close>

definition popcnt :: "uint64 \<Rightarrow> nat" where
  "popcnt w = length (filter (bit w) [0..<64])"

text \<open>
  \<^verbatim>\<open>(*ImageHash).Distance\<close>: both hashes are dereferenced to read their kind, a nil one
  panics; hashes of different kinds give \<^verbatim>\<open>-1\<close> and an error; otherwise the number of
  bits in which the two hashes differ.
\<close>

definition Distance :: "ImageHash option \<Rightarrow> ImageHash option \<Rightarrow> panic + (int \<times> error option)" where
  "Distance h other =
     (case h of
        None \<Rightarrow> Inl NilDereference
      | Some a \<Rightarrow>
          (case other of
             None \<Rightarrow> Inl NilDereference
           | Some b \<Rightarrow>
               if kind a \<noteq> kind b then Inr (- 1, Some KindError)
               else Inr (int (popcnt (hash a XOR hash b)), None)))"

text \<open>
  \<^verbatim>\<open>goimagehash.DifferenceHash\<close>: a nil image gives a nil hash and an error; any other
  image gives a hash of kind \<open>DHash\<close>. The 64 bits computed from the pixels are the
  parameter \<open>dhash\<close>; an image is a value of the type \<open>'img\<close>, and an
  \<^verbatim>\<open>image.Image\<close> interface value is an \<open>'img option\<close>.
\<close>

definition DifferenceHash :: "('img \<Rightarrow> uint64) \<Rightarrow> 'img option \<Rightarrow> ImageHash option \<times> error option" where
  "DifferenceHash dhash img =
     (case img of
        None \<Rightarrow> (None, Some NilImageError)
      | Some i \<Rightarrow> (NewImageHash (dhash i) DHash, None))"

section \<open>The template data model\<close>

record ROKTableField =
  Title :: string
  Field :: string
  Bold :: bool
  Color :: string

record OCRCrop =
  X :: int
  Y :: int
  W :: int
  H :: int

record OCRCheckpoint =
  Crop :: "OCRCrop option"
  Fingerprint :: string

text \<open>
  A value held in a Go \<^verbatim>\<open>interface{}\<close>, as far as the package builds or decodes one:
  what encoding/json stores when it decodes into an \<^verbatim>\<open>interface{}\<close> (nil, bool, float64,
  string, slice, map), an \<^verbatim>\<open>int\<close> and a \<^verbatim>\<open>[]string\<close>. A \<^verbatim>\<open>float64\<close> is the rational
  number it denotes.
\<close>

datatype any =
    ANil
  | ABool bool
  | AFloat64 rat
  | AString string
  | ASlice "any list"
  | AMap "(string \<times> any) list"
  | AInt int
  | AStrings "string list"

record ROKOCRSchema =
  Callback :: any
  Languages :: "string list"
  OEM :: int
  PSM :: int
  Crop :: "OCRCrop option"
  AllowList :: "any list"

record RokOCRTemplate =
  Title :: string
  Version :: string
  Author :: string
  Width :: int
  Height :: int
  OCRSchema :: "(string \<times> ROKOCRSchema) list"
  Fingerprint :: string
  Threshold :: int
  Table :: "ROKTableField list"
  Checkpoints :: "OCRCheckpoint list"

section \<open>Matching\<close>

definition differenceHashFromString :: "string \<Rightarrow> ImageHash option" where
  "differenceHashFromString s = (let (result, _) = ParseUint s in NewImageHash result DHash)"

definition Hash :: "RokOCRTemplate \<Rightarrow> ImageHash option" where
  "Hash b = differenceHashFromString (Fingerprint b)"

definition hashMatches :: "('img \<Rightarrow> uint64) \<Rightarrow> 'img option \<Rightarrow> ImageHash option \<Rightarrow> panic + bool" where
  "hashMatches dhash b hash' =
     (let (imghash, _) = DifferenceHash dhash b in
      case Distance imghash hash' of
        Inl p \<Rightarrow> Inl p
      | Inr (distance, err) \<Rightarrow>
          if err \<noteq> None then Inr False
          else Inr (1 \<ge> distance))"

definition Match :: "RokOCRTemplate \<Rightarrow> ImageHash option \<Rightarrow> panic + bool" where
  "Match b hash' =
     (case Distance (Hash b) hash' of
        Inl p \<Rightarrow> Inl p
      | Inr (distance, err) \<Rightarrow>
          if err \<noteq> None then Inr False
          else Inr (distance \<le> Threshold b))"

text \<open>Go's 64-bit signed addition.\<close>

definition add_int :: "int \<Rightarrow> int \<Rightarrow> int" where
  "add_int a b = (a + b + 2 ^ 63) mod 2 ^ 64 - 2 ^ 63"

record Rectangle =
  MinX :: int
  MinY :: int
  MaxX :: int
  MaxY :: int

text \<open>\<^verbatim>\<open>image.Rect\<close>: the corners are put in order.\<close>

definition Rect :: "int \<Rightarrow> int \<Rightarrow> int \<Rightarrow> int \<Rightarrow> Rectangle" where
  "Rect x0 y0 x1 y1 =
     (let (x0', x1') = (if x0 > x1 then (x1, x0) else (x0, x1));
          (y0', y1') = (if y0 > y1 then (y1, y0) else (y0, y1))
      in \<lparr>MinX = x0', MinY = y0', MaxX = x1', MaxY = y1'\<rparr>)"

text \<open>
  \<^verbatim>\<open>(*OCRCrop).CropRectange\<close> reads the fields of its receiver, so a nil receiver panics.
\<close>

definition CropRectange :: "OCRCrop option \<Rightarrow> panic + Rectangle" where
  "CropRectange b =
     (case b of
        None \<Rightarrow> Inl NilDereference
      | Some c \<Rightarrow> Inr (Rect (X c) (Y c) (add_int (X c) (W c)) (add_int (Y c) (H c))))"

text \<open>
  The loop of \<open>Matches\<close> over the checkpoints. \<^verbatim>\<open>imgutils.CropImage\<close> is a function of
  another package of the repository: it is the parameter \<open>CropImage\<close>, which returns an
  image (possibly nil) and an error; the loop drops the error.
\<close>

fun Matches_loop ::
  "('img \<Rightarrow> uint64) \<Rightarrow> ('img option \<Rightarrow> Rectangle \<Rightarrow> 'img option \<times> error option) \<Rightarrow>
   'img option \<Rightarrow> OCRCheckpoint list \<Rightarrow> panic + bool" where
  "Matches_loop dhash CropImage img [] = Inr True"
| "Matches_loop dhash CropImage img (s # rest) =
     (let expectedHash = differenceHashFromString (OCRCheckpoint.Fingerprint s) in
      case CropRectange (OCRCheckpoint.Crop s) of
        Inl p \<Rightarrow> Inl p
      | Inr r \<Rightarrow>
          (let (subImg, _) = CropImage img r in
           case hashMatches dhash subImg expectedHash of
             Inl p \<Rightarrow> Inl p
           | Inr ok \<Rightarrow>
               if \<not> ok then Inr False
               else Matches_loop dhash CropImage img rest))"

definition Matches ::
  "('img \<Rightarrow> uint64) \<Rightarrow> ('img option \<Rightarrow> Rectangle \<Rightarrow> 'img option \<times> error option) \<Rightarrow>
   RokOCRTemplate \<Rightarrow> 'img option \<Rightarrow> panic + bool" where
  "Matches dhash CropImage b img =
     (let (imageHash, _) = DifferenceHash dhash img in
      if length (Checkpoints b) = 0 then Match b imageHash
      else Matches_loop dhash CropImage img (Checkpoints b))"

section \<open>The field presets\<close>

text \<open>
  A nil slice and an empty slice are both the empty list: the package only takes their
  length, and \<^verbatim>\<open>omitempty\<close> drops both.
\<close>

definition NewNumberField :: "OCRCrop option \<Rightarrow> ROKOCRSchema" where
  "NewNumberField cropArea =
     \<lparr>Callback = AStrings [],
      Languages = [''eng''],
      OEM = 1,
      PSM = 7,
      Crop = cropArea,
      AllowList = [AInt 0, AInt 1, AInt 2, AInt 3, AInt 4, AInt 5, AInt 6, AInt 7, AInt 8, AInt 9]\<rparr>"

definition NewTextField :: "OCRCrop option \<Rightarrow> string list \<Rightarrow> ROKOCRSchema" where
  "NewTextField cropArea languages =
     \<lparr>Callback = AStrings [],
      Languages = languages,
      OEM = 1,
      PSM = 7,
      Crop = cropArea,
      AllowList = []\<rparr>"

section \<open>JSON\<close>

subsection \<open>Documents and what encoding/json reads from them\<close>

text \<open>
  A JSON document as a tree. \<open>JNumber q\<close> is a number literal of exact value \<open>q\<close>; a
  literal whose value is an integer is taken to be written as json.Marshal writes it,
  without fraction or exponent. A string of a document is the string the decoder reads
  from its literal. The byte slice handed to an \<^verbatim>\<open>UnmarshalJSON\<close> method, or returned
  by a \<^verbatim>\<open>MarshalJSON\<close> method, is a \<open>json option\<close>: the document the bytes spell,
  \<open>None\<close> when they are not syntactically valid JSON.
\<close>

datatype json =
    JNull
  | JBool bool
  | JNumber rat
  | JString string
  | JArray "json list"
  | JObject "(string \<times> json) list"

text \<open>
  Decoding a number into an \<^verbatim>\<open>interface{}\<close> goes through \<^verbatim>\<open>strconv.ParseFloat\<close>: the
  float64 nearest to the literal, ties to the even mantissa; a literal that rounds to
  \<open>2 ^ 1024\<close> or more is out of range. \<open>bit_len n\<close> is the number of binary digits of
  \<open>n\<close>, \<open>floor_log2 a\<close> the exponent of the leading bit of a positive rational.
\<close>

function bit_len :: "int \<Rightarrow> int" where
  "bit_len n = (if n \<le> 0 then 0 else 1 + bit_len (n div 2))"
  by pat_completeness auto
termination
  by (relation "measure nat") auto

declare bit_len.simps [simp del]

definition pow2 :: "int \<Rightarrow> rat" where
  "pow2 k = (if 0 \<le> k then 2 ^ nat k else 1 / 2 ^ nat (- k))"

definition floor_log2 :: "rat \<Rightarrow> int" where
  "floor_log2 a =
     (let (p, q) = quotient_of a;
          k = bit_len p - bit_len q
      in if pow2 k \<le> a then k else k - 1)"

definition round_half_even :: "rat \<Rightarrow> int" where
  "round_half_even x =
     (let f = \<lfloor>x\<rfloor>; r = x - of_int f
      in if r < 1 / 2 then f
         else if 1 / 2 < r then f + 1
         else if even f then f else f + 1)"

definition float64_of_rat :: "rat \<Rightarrow> rat option" where
  "float64_of_rat q =
     (if q = 0 then Some 0
      else
        let a = \<bar>q\<bar>;
            e = floor_log2 a;
            p = max (e - 52) (- 1074);
            r = of_int (round_half_even (a / pow2 p)) * pow2 p
        in if 2 ^ 1024 \<le> r then None else Some (sgn q * r))"

text \<open>
  The generic decoding of encoding/json (\<^verbatim>\<open>valueInterface\<close>, \<^verbatim>\<open>arrayInterface\<close>,
  \<^verbatim>\<open>objectInterface\<close>): null, bool, float64, string, \<^verbatim>\<open>[]interface{}\<close> and
  \<^verbatim>\<open>map[string]interface{}\<close>, in which a later key replaces an earlier equal one. \<open>None\<close>
  is the \<^verbatim>\<open>UnmarshalTypeError\<close> of a number out of range.
\<close>

fun valueInterface :: "json \<Rightarrow> any option"
  and arrayInterface :: "json list \<Rightarrow> any list option"
  and objectInterface :: "(string \<times> any) list \<Rightarrow> (string \<times> json) list \<Rightarrow> (string \<times> any) list option"
where
  "valueInterface JNull = Some ANil"
| "valueInterface (JBool b) = Some (ABool b)"
| "valueInterface (JNumber q) = map_option AFloat64 (float64_of_rat q)"
| "valueInterface (JString s) = Some (AString s)"
| "valueInterface (JArray xs) = map_option ASlice (arrayInterface xs)"
| "valueInterface (JObject kvs) = map_option AMap (objectInterface [] kvs)"
| "arrayInterface [] = Some []"
| "arrayInterface (x # xs) =
     (case valueInterface x of
        None \<Rightarrow> None
      | Some a \<Rightarrow> map_option ((#) a) (arrayInterface xs))"
| "objectInterface m [] = Some m"
| "objectInterface m (kv # kvs) =
     (case valueInterface (snd kv) of
        None \<Rightarrow> None
      | Some a \<Rightarrow> objectInterface (AList.update (fst kv) a m) kvs)"

text \<open>
  \<^verbatim>\<open>json.Unmarshal(data, &v)\<close> for a nil \<^verbatim>\<open>v []interface{}\<close>: bytes that are not JSON are a
  syntax error; an array gives its elements; null leaves \<open>v\<close> nil; any other value is an
  \<^verbatim>\<open>UnmarshalTypeError\<close>.
\<close>

definition Unmarshal_slice :: "json option \<Rightarrow> error + any list" where
  "Unmarshal_slice data =
     (case data of
        None \<Rightarrow> Inl SyntaxError
      | Some JNull \<Rightarrow> Inr []
      | Some (JArray xs) \<Rightarrow>
          (case arrayInterface xs of
             None \<Rightarrow> Inl UnmarshalTypeError
           | Some v \<Rightarrow> Inr v)
      | Some _ \<Rightarrow> Inl UnmarshalTypeError)"

subsection \<open>Indexing, type assertions and conversions\<close>

definition panic_bind :: "panic + 'a \<Rightarrow> ('a \<Rightarrow> panic + 'b) \<Rightarrow> panic + 'b" where
  "panic_bind m f = (case m of Inl p \<Rightarrow> Inl p | Inr x \<Rightarrow> f x)"

text \<open>\<^verbatim>\<open>v[i]\<close>: an index beyond the length panics.\<close>

definition index :: "'a list \<Rightarrow> nat \<Rightarrow> panic + 'a" where
  "index v i = (if i < length v then Inr (v ! i) else Inl IndexOutOfRange)"

text \<open>\<^verbatim>\<open>s, _ = x.(string)\<close>: the two-result form gives the zero value on a mismatch.\<close>

definition string_or_zero :: "any \<Rightarrow> string" where
  "string_or_zero x = (case x of AString s \<Rightarrow> s | _ \<Rightarrow> [])"

text \<open>\<^verbatim>\<open>x.(string)\<close>, \<^verbatim>\<open>x.(bool)\<close>, \<^verbatim>\<open>x.(float64)\<close>: the one-result form panics on a mismatch.\<close>

definition assert_string :: "any \<Rightarrow> panic + string" where
  "assert_string x = (case x of AString s \<Rightarrow> Inr s | _ \<Rightarrow> Inl TypeAssertion)"

definition assert_bool :: "any \<Rightarrow> panic + bool" where
  "assert_bool x = (case x of ABool b \<Rightarrow> Inr b | _ \<Rightarrow> Inl TypeAssertion)"

definition assert_float64 :: "any \<Rightarrow> panic + rat" where
  "assert_float64 x = (case x of AFloat64 f \<Rightarrow> Inr f | _ \<Rightarrow> Inl TypeAssertion)"

text \<open>
  \<^verbatim>\<open>int(f)\<close> for a float64 \<open>f\<close>: the fraction is discarded (truncation towards zero). When
  the result does not fit 64 bits the value is implementation-dependent: it is what the
  parameter \<open>ovf\<close> gives.
\<close>

definition int_of_float64 :: "(rat \<Rightarrow> int) \<Rightarrow> rat \<Rightarrow> int" where
  "int_of_float64 ovf f =
     (let t = (if 0 \<le> f then \<lfloor>f\<rfloor> else \<lceil>f\<rceil>)
      in if - (2 ^ 63) \<le> t \<and> t < 2 ^ 63 then t else ovf f)"

subsection \<open>Strings written by json.Marshal\<close>

text \<open>
  json.Marshal writes a string byte for byte where the bytes are valid UTF-8, and writes
  U+FFFD (the bytes \<^verbatim>\<open>EF BF BD\<close>) in place of every byte at which
  \<^verbatim>\<open>utf8.DecodeRuneInString\<close> finds no valid encoding. \<open>rune_len s\<close> is the length of the
  valid encoding at the head of \<open>s\<close>, 0 when there is none; the argument of
  \<open>coerce_from\<close> and \<open>valid_from\<close> counts the bytes of the current encoding still to
  be copied.
\<close>

definition cont_byte :: "char \<Rightarrow> bool" where
  "cont_byte c = (128 \<le> (of_char c :: nat) \<and> (of_char c :: nat) \<le> 191)"

definition rune_len :: "string \<Rightarrow> nat" where
  "rune_len s =
     (case s of
        [] \<Rightarrow> 0
      | c0 # r \<Rightarrow>
          (let b0 = of_char c0 :: nat in
           if b0 < 128 then 1
           else if 194 \<le> b0 \<and> b0 \<le> 223 then
             (case r of c1 # _ \<Rightarrow> if cont_byte c1 then 2 else 0 | _ \<Rightarrow> 0)
           else if 224 \<le> b0 \<and> b0 \<le> 239 then
             (case r of
                c1 # c2 # _ \<Rightarrow>
                  (let b1 = of_char c1 :: nat in
                   if (if b0 = 224 then 160 else 128) \<le> b1
                      \<and> b1 \<le> (if b0 = 237 then 159 else 191) \<and> cont_byte c2
                   then 3 else 0)
              | _ \<Rightarrow> 0)
           else if 240 \<le> b0 \<and> b0 \<le> 244 then
             (case r of
                c1 # c2 # c3 # _ \<Rightarrow>
                  (let b1 = of_char c1 :: nat in
                   if (if b0 = 240 then 144 else 128) \<le> b1
                      \<and> b1 \<le> (if b0 = 244 then 143 else 191) \<and> cont_byte c2 \<and> cont_byte c3
                   then 4 else 0)
              | _ \<Rightarrow> 0)
           else 0))"

definition replacement :: string where
  "replacement = [char_of (239 :: nat), char_of (191 :: nat), char_of (189 :: nat)]"

fun coerce_from :: "nat \<Rightarrow> string \<Rightarrow> string" where
  "coerce_from k [] = []"
| "coerce_from (Suc k) (c # cs) = c # coerce_from k cs"
| "coerce_from 0 (c # cs) =
     (case rune_len (c # cs) of
        0 \<Rightarrow> replacement @ coerce_from 0 cs
      | Suc n \<Rightarrow> c # coerce_from n cs)"

definition toValidUTF8 :: "string \<Rightarrow> string" where
  "toValidUTF8 s = coerce_from 0 s"

fun valid_from :: "nat \<Rightarrow> string \<Rightarrow> bool" where
  "valid_from k [] = True"
| "valid_from (Suc k) (c # cs) = valid_from k cs"
| "valid_from 0 (c # cs) =
     (case rune_len (c # cs) of
        0 \<Rightarrow> False
      | Suc n \<Rightarrow> valid_from n cs)"

definition valid_utf8 :: "string \<Rightarrow> bool" where
  "valid_utf8 s = valid_from 0 s"

subsection \<open>The positional encodings\<close>

text \<open>
  The receiver of an \<^verbatim>\<open>UnmarshalJSON\<close> method is updated in place: the model takes the
  receiver and returns it updated, with the error. A panic leaves nothing to return.
  The strings of a table field pass through json.Marshal, which writes them as above.
\<close>

definition ROKTableField_MarshalJSON :: "ROKTableField \<Rightarrow> json option \<times> error option" where
  "ROKTableField_MarshalJSON b =
     (Some (JArray [JString (toValidUTF8 (ROKTableField.Title b)),
                    JString (toValidUTF8 (Field b)), JBool (Bold b),
                    JString (toValidUTF8 (Color b))]), None)"

definition ROKTableField_UnmarshalJSON ::
  "ROKTableField \<Rightarrow> json option \<Rightarrow> panic + (ROKTableField \<times> error option)" where
  "ROKTableField_UnmarshalJSON b data =
     (case Unmarshal_slice data of
        Inl err \<Rightarrow> Inr (b, Some err)
      | Inr v \<Rightarrow>
          panic_bind (index v 0) (\<lambda>v0.
          let b = b\<lparr>ROKTableField.Title := string_or_zero v0\<rparr> in
          panic_bind (index v 1) (\<lambda>v1.
          let b = b\<lparr>Field := string_or_zero v1\<rparr> in
          panic_bind (index v 2) (\<lambda>v2.
          panic_bind (assert_bool v2) (\<lambda>bold.
          let b = b\<lparr>Bold := bold\<rparr> in
          panic_bind (index v 3) (\<lambda>v3.
          panic_bind (assert_string v3) (\<lambda>color.
          let b = b\<lparr>Color := color\<rparr> in
          Inr (b, None))))))))"

definition OCRCrop_MarshalJSON :: "OCRCrop \<Rightarrow> json option \<times> error option" where
  "OCRCrop_MarshalJSON b =
     (Some (JArray [JNumber (of_int (X b)), JNumber (of_int (Y b)), JNumber (of_int (W b)),
                    JNumber (of_int (H b))]), None)"

definition OCRCrop_UnmarshalJSON ::
  "(rat \<Rightarrow> int) \<Rightarrow> OCRCrop \<Rightarrow> json option \<Rightarrow> panic + (OCRCrop \<times> error option)" where
  "OCRCrop_UnmarshalJSON ovf b data =
     (case Unmarshal_slice data of
        Inl err \<Rightarrow> Inr (b, Some err)
      | Inr v \<Rightarrow>
          panic_bind (index v 0) (\<lambda>v0.
          panic_bind (assert_float64 v0) (\<lambda>x.
          let b = b\<lparr>X := int_of_float64 ovf x\<rparr> in
          panic_bind (index v 1) (\<lambda>v1.
          panic_bind (assert_float64 v1) (\<lambda>y.
          let b = b\<lparr>Y := int_of_float64 ovf y\<rparr> in
          panic_bind (index v 2) (\<lambda>v2.
          panic_bind (assert_float64 v2) (\<lambda>w.
          let b = b\<lparr>W := int_of_float64 ovf w\<rparr> in
          panic_bind (index v 3) (\<lambda>v3.
          panic_bind (assert_float64 v3) (\<lambda>h.
          let b = b\<lparr>H := int_of_float64 ovf h\<rparr> in
          Inr (b, None))))))))))"

section \<open>Loading a template\<close>

definition zero_template :: RokOCRTemplate where
  "zero_template =
     \<lparr>Title = [], Version = [], Author = [], Width = 0, Height = 0, OCRSchema = [],
      Fingerprint = [], Threshold = 0, Table = [], Checkpoints = []\<rparr>"

text \<open>
  \<^verbatim>\<open>json.Unmarshal(b, &t)\<close> checks first that the bytes are one JSON document; if they are
  not it returns a syntax error and leaves \<open>t\<close> alone. Otherwise it decodes the document
  into the struct by reflection over the field tags, calling the two \<^verbatim>\<open>UnmarshalJSON\<close>
  methods above for crops and table fields. The scanner is the parameter \<open>scan\<close>, the
  reflective decoding the parameter \<open>decode\<close>. A panic in an \<^verbatim>\<open>UnmarshalJSON\<close>
  method is a run-time error, which the library does not recover.
\<close>

definition json_Unmarshal ::
  "(string \<Rightarrow> json option) \<Rightarrow> (json \<Rightarrow> 'a \<Rightarrow> panic + ('a \<times> error option)) \<Rightarrow>
   string \<Rightarrow> 'a \<Rightarrow> panic + ('a \<times> error option)" where
  "json_Unmarshal scan decode data v =
     (case scan data of
        None \<Rightarrow> Inr (v, Some SyntaxError)
      | Some doc \<Rightarrow> decode doc v)"

text \<open>
  \<^verbatim>\<open>ioutil.ReadFile\<close> is the parameter \<open>ReadFile\<close>: the bytes read and an error. The error
  is dropped.
\<close>

definition LoadTemplate ::
  "(string \<Rightarrow> string \<times> error option) \<Rightarrow> (string \<Rightarrow> json option) \<Rightarrow>
   (json \<Rightarrow> RokOCRTemplate \<Rightarrow> panic + (RokOCRTemplate \<times> error option)) \<Rightarrow>
   string \<Rightarrow> panic + (RokOCRTemplate \<times> error option)" where
  "LoadTemplate ReadFile scan decode fileName =
     (let t = zero_template;
          (b, _) = ReadFile fileName
      in json_Unmarshal scan decode b t)"

section \<open>Encoding and decoding a template with encoding/json\<close>

definition zero_crop :: OCRCrop where
  "zero_crop = \<lparr>X = 0, Y = 0, W = 0, H = 0\<rparr>"

definition zero_field :: ROKTableField where
  "zero_field = \<lparr>ROKTableField.Title = [], Field = [], Bold = False, Color = []\<rparr>"

definition zero_checkpoint :: OCRCheckpoint where
  "zero_checkpoint = \<lparr>OCRCheckpoint.Crop = None, Fingerprint = []\<rparr>"

definition zero_schema :: ROKOCRSchema where
  "zero_schema = \<lparr>Callback = ANil, Languages = [], OEM = 0, PSM = 0, Crop = None, AllowList = []\<rparr>"

subsection \<open>json.Marshal\<close>

text \<open>
  json.Marshal writes a struct as an object of its tagged fields in the order of their
  declaration. Every field of the package is tagged \<^verbatim>\<open>omitempty\<close>: an empty string, a
  zero number, a nil pointer, a nil interface value and an empty slice or map are left
  out. A crop is reached through a pointer and a table field as an element of a slice,
  so both are written by their \<^verbatim>\<open>MarshalJSON\<close> method; \<open>method_doc\<close> is the document
  such a method returned (both methods always return one, and no error). A map is written
  with its keys in sorted order. An association list stands for the map of its entries
  and a list for the elements of a slice: a nil slice or map and an empty one are not
  told apart, and a slice or map held in an interface value is not nil. A float64 is
  written as the shortest literal that reads back as the same float64; the document
  carries its exact value instead, which reads back as the same float64 too.
\<close>

definition method_doc :: "json option \<times> error option \<Rightarrow> json" where
  "method_doc r = (case fst r of Some d \<Rightarrow> d | None \<Rightarrow> JNull)"

definition omit_string :: "string \<Rightarrow> string \<Rightarrow> (string \<times> json) list" where
  "omit_string k v = (if v = [] then [] else [(k, JString (toValidUTF8 v))])"

definition omit_int :: "string \<Rightarrow> int \<Rightarrow> (string \<times> json) list" where
  "omit_int k n = (if n = 0 then [] else [(k, JNumber (of_int n))])"

definition omit_array :: "string \<Rightarrow> json list \<Rightarrow> (string \<times> json) list" where
  "omit_array k docs = (if docs = [] then [] else [(k, JArray docs)])"

definition omit_crop :: "string \<Rightarrow> OCRCrop option \<Rightarrow> (string \<times> json) list" where
  "omit_crop k c = (case c of None \<Rightarrow> [] | Some b \<Rightarrow> [(k, method_doc (OCRCrop_MarshalJSON b))])"

fun Marshal_any :: "any \<Rightarrow> json" where
  "Marshal_any ANil = JNull"
| "Marshal_any (ABool b) = JBool b"
| "Marshal_any (AFloat64 f) = JNumber f"
| "Marshal_any (AString s) = JString (toValidUTF8 s)"
| "Marshal_any (ASlice xs) = JArray (map Marshal_any xs)"
| "Marshal_any (AMap kvs) =
     JObject (map (\<lambda>kv. (toValidUTF8 (fst kv), snd kv))
                (sort_key fst (map (\<lambda>(k, v). (k, Marshal_any v)) kvs)))"
| "Marshal_any (AInt n) = JNumber (of_int n)"
| "Marshal_any (AStrings ss) = JArray (map (\<lambda>s. JString (toValidUTF8 s)) ss)"

definition omit_interface :: "string \<Rightarrow> any \<Rightarrow> (string \<times> json) list" where
  "omit_interface k a = (if a = ANil then [] else [(k, Marshal_any a)])"

definition Marshal_schema :: "ROKOCRSchema \<Rightarrow> json" where
  "Marshal_schema b =
     JObject (omit_interface ''callback'' (Callback b)
            @ omit_array ''lang'' (map (\<lambda>s. JString (toValidUTF8 s)) (Languages b))
            @ omit_int ''oem'' (OEM b)
            @ omit_int ''psm'' (PSM b)
            @ omit_crop ''crop'' (Crop b)
            @ omit_array ''allowlist'' (map Marshal_any (AllowList b)))"

definition Marshal_checkpoint :: "OCRCheckpoint \<Rightarrow> json" where
  "Marshal_checkpoint b =
     JObject (omit_crop ''crop'' (OCRCheckpoint.Crop b)
            @ omit_string ''fingerprint'' (OCRCheckpoint.Fingerprint b))"

definition omit_map :: "string \<Rightarrow> (string \<times> json) list \<Rightarrow> (string \<times> json) list" where
  "omit_map k kvs =
     (if kvs = [] then []
      else [(k, JObject (map (\<lambda>kv. (toValidUTF8 (fst kv), snd kv)) (sort_key fst kvs)))])"

definition Marshal_template :: "RokOCRTemplate \<Rightarrow> json" where
  "Marshal_template b =
     JObject (omit_string ''title'' (Title b)
            @ omit_string ''version'' (Version b)
            @ omit_string ''author'' (Author b)
            @ omit_int ''width'' (Width b)
            @ omit_int ''height'' (Height b)
            @ omit_map ''ocr_schema'' (map (\<lambda>(k, v). (k, Marshal_schema v)) (OCRSchema b))
            @ omit_string ''fingerprint'' (Fingerprint b)
            @ omit_int ''threshold'' (Threshold b)
            @ omit_array ''table'' (map (\<lambda>f. method_doc (ROKTableField_MarshalJSON f)) (Table b))
            @ omit_array ''checkpoints'' (map Marshal_checkpoint (Checkpoints b)))"

subsection \<open>json.Unmarshal\<close>

text \<open>
  json.Unmarshal decodes a document into the value it is given and updates that value
  in place: a decoder takes the document, the value stored so far and the first type
  error saved so far. A JSON value that does not fit a Go type is a saved error: the
  field is left alone, decoding goes on, and the first such error is returned at the
  end. An error returned by an \<^verbatim>\<open>UnmarshalJSON\<close> method stops the decoding at once and is
  returned, with the value as far as it was decoded; a panic of such a method is not
  recovered.
\<close>

datatype 'a decoded = Panicked panic | Aborted 'a error | Decoded 'a "error option"

text \<open>Only the first type error is kept.\<close>

definition saveError :: "error option \<Rightarrow> error \<Rightarrow> error option" where
  "saveError s e = (case s of None \<Rightarrow> Some e | Some e' \<Rightarrow> Some e')"

definition map_decoded :: "('a \<Rightarrow> 'b) \<Rightarrow> 'a decoded \<Rightarrow> 'b decoded" where
  "map_decoded f r =
     (case r of
        Panicked p \<Rightarrow> Panicked p
      | Aborted a e \<Rightarrow> Aborted (f a) e
      | Decoded a s \<Rightarrow> Decoded (f a) s)"

text \<open>
  Strings and integers. JSON null leaves a string, a number or a struct alone and makes
  a pointer, an interface value, a slice and a map nil.
\<close>

definition decode_string :: "json \<Rightarrow> string \<Rightarrow> error option \<Rightarrow> string decoded" where
  "decode_string x v s =
     (case x of
        JString str \<Rightarrow> Decoded str s
      | JNull \<Rightarrow> Decoded v s
      | _ \<Rightarrow> Decoded v (saveError s UnmarshalTypeError))"

definition decode_int :: "json \<Rightarrow> int \<Rightarrow> error option \<Rightarrow> int decoded" where
  "decode_int x v s =
     (case x of
        JNumber q \<Rightarrow>
          if of_int \<lfloor>q\<rfloor> = q \<and> - (2 ^ 63) \<le> \<lfloor>q\<rfloor> \<and> \<lfloor>q\<rfloor> < 2 ^ 63 then Decoded \<lfloor>q\<rfloor> s
          else Decoded v (saveError s UnmarshalTypeError)
      | JNull \<Rightarrow> Decoded v s
      | _ \<Rightarrow> Decoded v (saveError s UnmarshalTypeError))"

text \<open>
  An \<^verbatim>\<open>interface{}\<close> takes the generic value of the document. A number out of range is
  a saved error: it leaves the field alone when it is the whole value and leaves nil
  where it stands inside an array or an object.
\<close>

fun interface_value :: "json \<Rightarrow> any"
  and interface_object :: "(string \<times> any) list \<Rightarrow> (string \<times> json) list \<Rightarrow> (string \<times> any) list"
where
  "interface_value JNull = ANil"
| "interface_value (JBool b) = ABool b"
| "interface_value (JNumber q) = (case float64_of_rat q of None \<Rightarrow> ANil | Some f \<Rightarrow> AFloat64 f)"
| "interface_value (JString s) = AString s"
| "interface_value (JArray xs) = ASlice (map interface_value xs)"
| "interface_value (JObject kvs) = AMap (interface_object [] kvs)"
| "interface_object m [] = m"
| "interface_object m (kv # kvs) =
     interface_object (AList.update (fst kv) (interface_value (snd kv)) m) kvs"

definition decode_interface :: "json \<Rightarrow> any \<Rightarrow> error option \<Rightarrow> any decoded" where
  "decode_interface x v s =
     (case x of
        JNumber q \<Rightarrow>
          (case float64_of_rat q of
             None \<Rightarrow> Decoded v (saveError s UnmarshalTypeError)
           | Some f \<Rightarrow> Decoded (AFloat64 f) s)
      | _ \<Rightarrow>
          Decoded (interface_value x)
            (if valueInterface x = None then saveError s UnmarshalTypeError else s))"

text \<open>
  A slice: the elements already stored are decoded into, further elements start from
  the zero value (the slice is taken to have no capacity beyond its length), and the
  slice ends with the last element of the array.
\<close>

fun array_elems ::
  "(json \<Rightarrow> 'a \<Rightarrow> error option \<Rightarrow> 'a decoded) \<Rightarrow> 'a \<Rightarrow> json list \<Rightarrow> 'a list \<Rightarrow> error option \<Rightarrow>
   'a list decoded" where
  "array_elems dec zero [] old s = Decoded [] s"
| "array_elems dec zero (x # xs) old s =
     (case dec x (case old of [] \<Rightarrow> zero | a # _ \<Rightarrow> a) s of
        Panicked p \<Rightarrow> Panicked p
      | Aborted a e \<Rightarrow> Aborted (a # tl old) e
      | Decoded a s' \<Rightarrow> map_decoded ((#) a) (array_elems dec zero xs (tl old) s'))"

definition decode_slice ::
  "(json \<Rightarrow> 'a \<Rightarrow> error option \<Rightarrow> 'a decoded) \<Rightarrow> 'a \<Rightarrow> json \<Rightarrow> 'a list \<Rightarrow> error option \<Rightarrow>
   'a list decoded" where
  "decode_slice dec zero x v s =
     (case x of
        JArray xs \<Rightarrow> array_elems dec zero xs v s
      | JNull \<Rightarrow> Decoded [] s
      | _ \<Rightarrow> Decoded v (saveError s UnmarshalTypeError))"

text \<open>A map: every value is decoded into a fresh zero value and stored under its key.\<close>

fun map_entries ::
  "(json \<Rightarrow> 'a \<Rightarrow> error option \<Rightarrow> 'a decoded) \<Rightarrow> 'a \<Rightarrow> (string \<times> json) list \<Rightarrow>
   (string \<times> 'a) list \<Rightarrow> error option \<Rightarrow> (string \<times> 'a) list decoded" where
  "map_entries dec zero [] m s = Decoded m s"
| "map_entries dec zero (kv # kvs) m s =
     (case dec (snd kv) zero s of
        Panicked p \<Rightarrow> Panicked p
      | Aborted a e \<Rightarrow> Aborted m e
      | Decoded a s' \<Rightarrow> map_entries dec zero kvs (AList.update (fst kv) a m) s')"

definition decode_map ::
  "(json \<Rightarrow> 'a \<Rightarrow> error option \<Rightarrow> 'a decoded) \<Rightarrow> 'a \<Rightarrow> json \<Rightarrow> (string \<times> 'a) list \<Rightarrow>
   error option \<Rightarrow> (string \<times> 'a) list decoded" where
  "decode_map dec zero x v s =
     (case x of
        JObject kvs \<Rightarrow> map_entries dec zero kvs v s
      | JNull \<Rightarrow> Decoded [] s
      | _ \<Rightarrow> Decoded v (saveError s UnmarshalTypeError))"

text \<open>
  A struct: the keys of the object are taken in order, each decoded into the field it
  names; a key that names no field is skipped.
\<close>

fun object_fields ::
  "(string \<Rightarrow> json \<Rightarrow> 'a \<Rightarrow> error option \<Rightarrow> 'a decoded) \<Rightarrow> (string \<times> json) list \<Rightarrow> 'a \<Rightarrow>
   error option \<Rightarrow> 'a decoded" where
  "object_fields field [] v s = Decoded v s"
| "object_fields field (kv # kvs) v s =
     (case field (fst kv) (snd kv) v s of
        Decoded v' s' \<Rightarrow> object_fields field kvs v' s'
      | r \<Rightarrow> r)"

definition decode_struct ::
  "(string \<Rightarrow> json \<Rightarrow> 'a \<Rightarrow> error option \<Rightarrow> 'a decoded) \<Rightarrow> json \<Rightarrow> 'a \<Rightarrow> error option \<Rightarrow>
   'a decoded" where
  "decode_struct field x v s =
     (case x of
        JObject kvs \<Rightarrow> object_fields field kvs v s
      | JNull \<Rightarrow> Decoded v s
      | _ \<Rightarrow> Decoded v (saveError s UnmarshalTypeError))"

text \<open>
  A key names a field when it equals the field's name in its tag, or else when the two
  are equal under Unicode case folding. The names of the package are ASCII, and besides
  the ASCII letters only U+017F (bytes \<^verbatim>\<open>C5 BF\<close>) and U+212A (bytes \<^verbatim>\<open>E2 84 AA\<close>) fold
  to an ASCII letter, \<^verbatim>\<open>S\<close> and \<^verbatim>\<open>K\<close>.
\<close>

fun fold_name :: "string \<Rightarrow> string" where
  "fold_name [] = []"
| "fold_name (c # cs) =
     (let n = of_char c :: nat in
      if 97 \<le> n \<and> n \<le> 122 then char_of (n - 32) # fold_name cs
      else if n = 197 \<and> map of_char (take 1 cs) = [191 :: nat] then CHR ''S'' # fold_name (tl cs)
      else if n = 226 \<and> map of_char (take 2 cs) = [132, 170 :: nat]
        then CHR ''K'' # fold_name (tl (tl cs))
      else c # fold_name cs)"

definition find_field :: "string list \<Rightarrow> string \<Rightarrow> string option" where
  "find_field names k =
     (if k \<in> set names then Some k
      else find (\<lambda>n. fold_name n = fold_name k) names)"

text \<open>
  A crop field is a pointer to a type with an \<^verbatim>\<open>UnmarshalJSON\<close> method: null makes it
  nil, any other value is handed to the method of the crop stored, or of a new zero crop.
  An element of the table is handed to its method whatever the value is.
\<close>

definition decode_crop ::
  "(rat \<Rightarrow> int) \<Rightarrow> json \<Rightarrow> OCRCrop option \<Rightarrow> error option \<Rightarrow> OCRCrop option decoded" where
  "decode_crop ovf x v s =
     (case x of
        JNull \<Rightarrow> Decoded None s
      | _ \<Rightarrow>
          (case OCRCrop_UnmarshalJSON ovf (case v of None \<Rightarrow> zero_crop | Some b \<Rightarrow> b) (Some x) of
             Inl p \<Rightarrow> Panicked p
           | Inr (b, None) \<Rightarrow> Decoded (Some b) s
           | Inr (b, Some e) \<Rightarrow> Aborted (Some b) e))"

definition decode_table_field :: "json \<Rightarrow> ROKTableField \<Rightarrow> error option \<Rightarrow> ROKTableField decoded" where
  "decode_table_field x v s =
     (case ROKTableField_UnmarshalJSON v (Some x) of
        Inl p \<Rightarrow> Panicked p
      | Inr (b, None) \<Rightarrow> Decoded b s
      | Inr (b, Some e) \<Rightarrow> Aborted b e)"

definition checkpoint_field ::
  "(rat \<Rightarrow> int) \<Rightarrow> string \<Rightarrow> json \<Rightarrow> OCRCheckpoint \<Rightarrow> error option \<Rightarrow> OCRCheckpoint decoded" where
  "checkpoint_field ovf k x v s =
     (case find_field [''crop'', ''fingerprint''] k of
        None \<Rightarrow> Decoded v s
      | Some n \<Rightarrow>
          if n = ''crop'' then
            map_decoded (\<lambda>a. v\<lparr>OCRCheckpoint.Crop := a\<rparr>) (decode_crop ovf x (OCRCheckpoint.Crop v) s)
          else
            map_decoded (\<lambda>a. v\<lparr>OCRCheckpoint.Fingerprint := a\<rparr>)
              (decode_string x (OCRCheckpoint.Fingerprint v) s))"

definition schema_field ::
  "(rat \<Rightarrow> int) \<Rightarrow> string \<Rightarrow> json \<Rightarrow> ROKOCRSchema \<Rightarrow> error option \<Rightarrow> ROKOCRSchema decoded" where
  "schema_field ovf k x v s =
     (case find_field [''callback'', ''lang'', ''oem'', ''psm'', ''crop'', ''allowlist''] k of
        None \<Rightarrow> Decoded v s
      | Some n \<Rightarrow>
          if n = ''callback'' then
            map_decoded (\<lambda>a. v\<lparr>Callback := a\<rparr>) (decode_interface x (Callback v) s)
          else if n = ''lang'' then
            map_decoded (\<lambda>a. v\<lparr>Languages := a\<rparr>) (decode_slice decode_string [] x (Languages v) s)
          else if n = ''oem'' then
            map_decoded (\<lambda>a. v\<lparr>OEM := a\<rparr>) (decode_int x (OEM v) s)
          else if n = ''psm'' then
            map_decoded (\<lambda>a. v\<lparr>PSM := a\<rparr>) (decode_int x (PSM v) s)
          else if n = ''crop'' then
            map_decoded (\<lambda>a. v\<lparr>Crop := a\<rparr>) (decode_crop ovf x (Crop v) s)
          else
            map_decoded (\<lambda>a. v\<lparr>AllowList := a\<rparr>)
              (decode_slice decode_interface ANil x (AllowList v) s))"

definition template_field ::
  "(rat \<Rightarrow> int) \<Rightarrow> string \<Rightarrow> json \<Rightarrow> RokOCRTemplate \<Rightarrow> error option \<Rightarrow> RokOCRTemplate decoded" where
  "template_field ovf k x v s =
     (case find_field [''title'', ''version'', ''author'', ''width'', ''height'', ''ocr_schema'',
                       ''fingerprint'', ''threshold'', ''table'', ''checkpoints''] k of
        None \<Rightarrow> Decoded v s
      | Some n \<Rightarrow>
          if n = ''title'' then
            map_decoded (\<lambda>a. v\<lparr>Title := a\<rparr>) (decode_string x (Title v) s)
          else if n = ''version'' then
            map_decoded (\<lambda>a. v\<lparr>Version := a\<rparr>) (decode_string x (Version v) s)
          else if n = ''author'' then
            map_decoded (\<lambda>a. v\<lparr>Author := a\<rparr>) (decode_string x (Author v) s)
          else if n = ''width'' then
            map_decoded (\<lambda>a. v\<lparr>Width := a\<rparr>) (decode_int x (Width v) s)
          else if n = ''height'' then
            map_decoded (\<lambda>a. v\<lparr>Height := a\<rparr>) (decode_int x (Height v) s)
          else if n = ''ocr_schema'' then
            map_decoded (\<lambda>a. v\<lparr>OCRSchema := a\<rparr>)
              (decode_map (decode_struct (schema_field ovf)) zero_schema x (OCRSchema v) s)
          else if n = ''fingerprint'' then
            map_decoded (\<lambda>a. v\<lparr>Fingerprint := a\<rparr>) (decode_string x (Fingerprint v) s)
          else if n = ''threshold'' then
            map_decoded (\<lambda>a. v\<lparr>Threshold := a\<rparr>) (decode_int x (Threshold v) s)
          else if n = ''table'' then
            map_decoded (\<lambda>a. v\<lparr>Table := a\<rparr>)
              (decode_slice decode_table_field zero_field x (Table v) s)
          else
            map_decoded (\<lambda>a. v\<lparr>Checkpoints := a\<rparr>)
              (decode_slice (decode_struct (checkpoint_field ovf)) zero_checkpoint x (Checkpoints v) s))"

text \<open>
  \<open>decode_template\<close> is what json.Unmarshal does with a document and a template: it
  can stand for the parameter \<open>decode\<close> of \<open>json_Unmarshal\<close> and \<open>LoadTemplate\<close>.
\<close>

definition decode_template ::
  "(rat \<Rightarrow> int) \<Rightarrow> json \<Rightarrow> RokOCRTemplate \<Rightarrow> panic + (RokOCRTemplate \<times> error option)" where
  "decode_template ovf doc t =
     (case decode_struct (template_field ovf) doc t None of
        Panicked p \<Rightarrow> Inl p
      | Aborted v e \<Rightarrow> Inr (v, Some e)
      | Decoded v s \<Rightarrow> Inr (v, s))"

section \<open>Notions of the specification\<close>

text \<open>The Hamming distance of two hashes: the number of bits in which they differ.\<close>

definition HammingDistance :: "uint64 \<Rightarrow> uint64 \<Rightarrow> nat" where
  "HammingDistance a b = popcnt (a XOR b)"

text \<open>The 64-bit value a fingerprint string decodes to.\<close>

definition decoded_fingerprint :: "string \<Rightarrow> uint64" where
  "decoded_fingerprint s = fst (ParseUint s)"

text \<open>
  A checkpoint passes when the hash of the sub-image cropped at its rectangle is within
  distance 1 of its decoded fingerprint. \<open>None\<close>: the checkpoint has no rectangle, or the
  crop gave no sub-image.
\<close>

definition checkpoint_ok ::
  "('img \<Rightarrow> uint64) \<Rightarrow> ('img option \<Rightarrow> Rectangle \<Rightarrow> 'img option \<times> error option) \<Rightarrow>
   'img option \<Rightarrow> OCRCheckpoint \<Rightarrow> bool option" where
  "checkpoint_ok dhash CropImage img s =
     (case OCRCheckpoint.Crop s of
        None \<Rightarrow> None
      | Some c \<Rightarrow>
          (case fst (CropImage img (Rect (X c) (Y c) (add_int (X c) (W c)) (add_int (Y c) (H c)))) of
             None \<Rightarrow> None
           | Some sub \<Rightarrow>
               Some (HammingDistance (dhash sub)
                       (decoded_fingerprint (OCRCheckpoint.Fingerprint s)) \<le> 1)))"

text \<open>A string is valid hexadecimal when it is not empty and all its characters are hexadecimal digits.\<close>

definition is_hex_digit :: "char \<Rightarrow> bool" where
  "is_hex_digit c = (case digit_val c of None \<Rightarrow> False | Some d \<Rightarrow> d < 16)"

definition valid_hex :: "string \<Rightarrow> bool" where
  "valid_hex s = (s \<noteq> [] \<and> list_all is_hex_digit s)"

text \<open>
  The values for which encoding and then decoding is the identity. A Go \<^verbatim>\<open>int\<close> has 64
  bits. A crop is exact when its four numbers are float64 values. A value held in an
  \<^verbatim>\<open>interface{}\<close> is native to JSON when it is of the kinds the decoder stores: nil, bool,
  float64, string, \<^verbatim>\<open>[]interface{}\<close> and \<^verbatim>\<open>map[string]interface{}\<close>, with strings in
  valid UTF-8; an association list for a map lists the keys once and in order.
\<close>

definition go_int :: "int \<Rightarrow> bool" where
  "go_int n = (- (2 ^ 63) \<le> n \<and> n < 2 ^ 63)"

definition exact_crop :: "OCRCrop \<Rightarrow> bool" where
  "exact_crop c = (\<bar>X c\<bar> \<le> 2 ^ 53 \<and> \<bar>Y c\<bar> \<le> 2 ^ 53 \<and> \<bar>W c\<bar> \<le> 2 ^ 53 \<and> \<bar>H c\<bar> \<le> 2 ^ 53)"

fun json_native :: "any \<Rightarrow> bool" where
  "json_native ANil = True"
| "json_native (ABool b) = True"
| "json_native (AFloat64 f) = (float64_of_rat f = Some f)"
| "json_native (AString s) = valid_utf8 s"
| "json_native (ASlice xs) = list_all json_native xs"
| "json_native (AMap kvs) =
     (sorted (map fst kvs) \<and> distinct (map fst kvs)
      \<and> list_all (\<lambda>kv. valid_utf8 (fst kv) \<and> json_native (snd kv)) kvs)"
| "json_native (AInt n) = False"
| "json_native (AStrings ss) = False"

definition well_formed_field :: "ROKTableField \<Rightarrow> bool" where
  "well_formed_field b =
     (valid_utf8 (ROKTableField.Title b) \<and> valid_utf8 (Field b) \<and> valid_utf8 (Color b))"

definition well_formed_crop :: "OCRCrop option \<Rightarrow> bool" where
  "well_formed_crop c = (case c of None \<Rightarrow> True | Some b \<Rightarrow> exact_crop b)"

definition well_formed_checkpoint :: "OCRCheckpoint \<Rightarrow> bool" where
  "well_formed_checkpoint b =
     (well_formed_crop (OCRCheckpoint.Crop b) \<and> valid_utf8 (OCRCheckpoint.Fingerprint b))"

definition well_formed_schema :: "ROKOCRSchema \<Rightarrow> bool" where
  "well_formed_schema b =
     (json_native (Callback b) \<and> list_all valid_utf8 (Languages b) \<and> go_int (OEM b)
      \<and> go_int (PSM b) \<and> well_formed_crop (Crop b) \<and> list_all json_native (AllowList b))"

definition well_formed_template :: "RokOCRTemplate \<Rightarrow> bool" where
  "well_formed_template b =
     (valid_utf8 (Title b) \<and> valid_utf8 (Version b) \<and> valid_utf8 (Author b)
      \<and> go_int (Width b) \<and> go_int (Height b)
      \<and> sorted (map fst (OCRSchema b)) \<and> distinct (map fst (OCRSchema b))
      \<and> list_all (\<lambda>kv. valid_utf8 (fst kv) \<and> well_formed_schema (snd kv)) (OCRSchema b)
      \<and> valid_utf8 (Fingerprint b) \<and> go_int (Threshold b)
      \<and> list_all well_formed_field (Table b)
      \<and> list_all well_formed_checkpoint (Checkpoints b))"

section \<open>Test doubles and sample values\<close>

text \<open>
  An image is a number, its hash is that number, and cropping at a rectangle adds the
  rectangle's left edge; a nil image cannot be cropped.
\<close>

definition stub_dhash :: "nat \<Rightarrow> uint64" where
  "stub_dhash i = of_nat i"

definition stub_crop :: "nat option \<Rightarrow> Rectangle \<Rightarrow> nat option \<times> error option" where
  "stub_crop img r =
     (case img of
        None \<Rightarrow> (None, Some CropError)
      | Some i \<Rightarrow> (Some (i + nat (MinX r)), None))"

definition exact_template :: RokOCRTemplate where
  "exact_template = zero_template\<lparr>Fingerprint := ''0000000000000000''\<rparr>"

definition negative_template :: RokOCRTemplate where
  "negative_template = zero_template\<lparr>Threshold := - 1\<rparr>"

definition first_anchor :: OCRCheckpoint where
  "first_anchor = \<lparr>OCRCheckpoint.Crop = Some \<lparr>X = 1, Y = 0, W = 8, H = 8\<rparr>, Fingerprint = ''0000000000000001''\<rparr>"

definition second_anchor :: OCRCheckpoint where
  "second_anchor = \<lparr>OCRCheckpoint.Crop = Some \<lparr>X = 7, Y = 0, W = 8, H = 8\<rparr>, Fingerprint = ''0000000000000000''\<rparr>"

definition broken_anchor :: OCRCheckpoint where
  "broken_anchor = \<lparr>OCRCheckpoint.Crop = None, Fingerprint = ''0000000000000000''\<rparr>"

definition anchored_template :: RokOCRTemplate where
  "anchored_template = zero_template\<lparr>Checkpoints := [first_anchor, second_anchor, broken_anchor]\<rparr>"

definition single_anchor_template :: RokOCRTemplate where
  "single_anchor_template = zero_template\<lparr>Checkpoints := [first_anchor]\<rparr>"

text \<open>On amd64 a float64 outside the range of \<^verbatim>\<open>int\<close> converts to the smallest \<^verbatim>\<open>int\<close>.\<close>

definition amd64_ovf :: "rat \<Rightarrow> int" where
  "amd64_ovf f = - (2 ^ 63)"

text \<open>
  A template with a number field as \<open>NewNumberField\<close> builds it, and a template whose
  values are all of the kinds that survive encoding and decoding.
\<close>

definition number_template :: RokOCRTemplate where
  "number_template = zero_template\<lparr>OCRSchema := [(''power'', NewNumberField None)]\<rparr>"

definition name_column :: ROKTableField where
  "name_column =
     \<lparr>ROKTableField.Title = ''Name'', Field = ''player_name'', Bold = True, Color = ''#FFFFFF''\<rparr>"

definition power_schema :: ROKOCRSchema where
  "power_schema =
     \<lparr>Callback = AString ''number'', Languages = [''eng''], OEM = 1, PSM = 7,
      Crop = Some \<lparr>X = 10, Y = 20, W = 300, H = 40\<rparr>, AllowList = [AString ''0'', AString ''1'']\<rparr>"

definition profile_template :: RokOCRTemplate where
  "profile_template =
     \<lparr>Title = ''Profile'', Version = ''1'', Author = [], Width = 1920, Height = 1080,
      OCRSchema = [(''power'', power_schema)], Fingerprint = ''0000000000000001'',
      Threshold = 2, Table = [name_column], Checkpoints = [first_anchor]\<rparr>"

text \<open>A table field whose title is the single byte \<^verbatim>\<open>FF\<close>, which is not valid UTF-8.\<close>

definition byte_column :: ROKTableField where
  "byte_column =
     \<lparr>ROKTableField.Title = [char_of (255 :: nat)], Field = ''f'', Bold = False, Color = ''c''\<rparr>"

text \<open>
  A file system with no file, a scanner that knows the empty input and one document, and
  a decoder that reads the threshold of that document.
\<close>

definition stub_ReadFile :: "string \<Rightarrow> string \<times> error option" where
  "stub_ReadFile fileName =
     (if fileName = ''negative.json'' then (''{\"threshold\":-1}'', None)
      else ([], Some PathError))"

definition stub_scan :: "string \<Rightarrow> json option" where
  "stub_scan data =
     (if data = ''{\"threshold\":-1}'' then Some (JObject [(''threshold'', JNumber (- 1))])
      else None)"

definition stub_decode :: "json \<Rightarrow> RokOCRTemplate \<Rightarrow> panic + (RokOCRTemplate \<times> error option)" where
  "stub_decode doc t =
     (case doc of
        JObject [(k, JNumber q)] \<Rightarrow>
          if k = ''threshold'' then Inr (t\<lparr>Threshold := \<lfloor>q\<rfloor>\<rparr>, None)
          else Inr (t, None)
      | _ \<Rightarrow> Inr (t, Some UnmarshalTypeError))"

section \<open>Lemmas about hashes\<close>

lemma popcnt_zero_iff: "popcnt w = 0 \<longleftrightarrow> w = 0"
proof
  assume "popcnt w = 0"
  then have "\<forall>n<64. \<not> bit w n"
    by (auto simp: popcnt_def filter_empty_conv)
  then show "w = 0"
    by (intro bit_eqI) (auto dest: bit_imp_le_length)
next
  assume "w = 0"
  then show "popcnt w = 0" by (simp add: popcnt_def)
qed

lemma xor_zero_iff: "(a::uint64) XOR b = 0 \<longleftrightarrow> a = b"
  by (metis bit.xor_left_self xor.right_neutral)

lemma HammingDistance_commute: "HammingDistance a b = HammingDistance b a"
  by (simp add: HammingDistance_def xor.commute)

lemma HammingDistance_zero_iff: "HammingDistance a b = 0 \<longleftrightarrow> a = b"
  by (simp add: HammingDistance_def popcnt_zero_iff xor_zero_iff)

lemma differenceHashFromString_eq:
  "differenceHashFromString s = NewImageHash (decoded_fingerprint s) DHash"
  by (simp add: differenceHashFromString_def decoded_fingerprint_def split: prod.splits)

lemma Distance_DHash:
  "Distance (NewImageHash a DHash) (NewImageHash b DHash) = Inr (int (HammingDistance a b), None)"
  by (simp add: Distance_def NewImageHash_def HammingDistance_def)

lemma Match_image:
  "Match T (NewImageHash h DHash) =
     Inr (int (HammingDistance h (decoded_fingerprint (Fingerprint T))) \<le> Threshold T)"
  by (simp add: Match_def Hash_def differenceHashFromString_eq Distance_DHash
      HammingDistance_commute)

lemma hashMatches_image:
  "hashMatches dhash (Some i) (differenceHashFromString s) =
     Inr (HammingDistance (dhash i) (decoded_fingerprint s) \<le> 1)"
  by (simp add: hashMatches_def DifferenceHash_def differenceHashFromString_eq Distance_DHash)

lemma decoded_zeros: "decoded_fingerprint ''0000000000000000'' = 0"
  by (simp add: decoded_fingerprint_def ParseUint_def digit_val_def cutoff_def maxVal_def)

lemma decoded_one: "decoded_fingerprint ''0000000000000001'' = 1"
  by (simp add: decoded_fingerprint_def ParseUint_def digit_val_def cutoff_def maxVal_def)

section \<open>Lemmas about the loop over the checkpoints\<close>

lemma Matches_loop_step:
  "checkpoint_ok dhash CropImage img s = Some ok \<Longrightarrow>
   Matches_loop dhash CropImage img (s # rest) =
     (if ok then Matches_loop dhash CropImage img rest else Inr False)"
  by (auto simp: checkpoint_ok_def CropRectange_def hashMatches_image
      split: option.splits prod.splits)

lemma Matches_loop_all:
  "\<forall>s\<in>set cs. checkpoint_ok dhash CropImage img s \<noteq> None \<Longrightarrow>
   Matches_loop dhash CropImage img cs =
     Inr (\<forall>s\<in>set cs. checkpoint_ok dhash CropImage img s = Some True)"
proof (induction cs)
  case Nil
  then show ?case by simp
next
  case (Cons s cs)
  then obtain ok where ok: "checkpoint_ok dhash CropImage img s = Some ok" by auto
  show ?case
    using Cons by (cases ok) (simp_all only: Matches_loop_step [OF ok], auto simp: ok)
qed

lemma Matches_loop_first_failure:
  "\<forall>s\<in>set pre. checkpoint_ok dhash CropImage img s = Some True \<Longrightarrow>
   checkpoint_ok dhash CropImage img s = Some False \<Longrightarrow>
   Matches_loop dhash CropImage img (pre @ s # post) = Inr False"
proof (induction pre)
  case Nil
  then show ?case by (simp only: append_Nil Matches_loop_step, simp)
next
  case (Cons a pre)
  then have a: "checkpoint_ok dhash CropImage img a = Some True" by simp
  show ?case using Cons by (simp only: append_Cons Matches_loop_step [OF a], simp)
qed

lemma first_anchor_ok: "checkpoint_ok stub_dhash stub_crop (Some 0) first_anchor = Some True"
  by (simp add: checkpoint_ok_def first_anchor_def stub_crop_def stub_dhash_def Rect_def
      add_int_def decoded_one HammingDistance_zero_iff [THEN iffD2])

lemma second_anchor_ok: "checkpoint_ok stub_dhash stub_crop (Some 0) second_anchor = Some False"
proof -
  have "HammingDistance 7 0 = 3" unfolding HammingDistance_def by code_simp
  then show ?thesis
    by (simp add: checkpoint_ok_def second_anchor_def stub_crop_def stub_dhash_def Rect_def
        add_int_def decoded_zeros)
qed

section \<open>Lemmas about parsing a fingerprint\<close>

lemma pow16_bound: "k < 16 \<Longrightarrow> (16::nat) ^ k \<le> 16 ^ 15"
  by (rule power_increasing) simp_all

lemma step_unat:
  fixes n :: uint64
  assumes "unat n < 16 ^ k" "k < 16" "d < 16"
  shows "unat (n * 16 + of_nat d) = unat n * 16 + d"
proof -
  have b: "unat n < 16 ^ 15" using assms(1) pow16_bound [OF assms(2)] by linarith
  have "unat (n * 16 + of_nat d) = (unat n * 16 + d) mod 2 ^ 64"
    by (simp add: unat_word_ariths unat_of_nat mod_simps)
  also have "\<dots> = unat n * 16 + d"
    using b assms(3) by simp
  finally show ?thesis .
qed

lemma step_no_overflow:
  fixes n :: uint64
  assumes "unat n < 16 ^ k" "k < 16" "d < 16"
  shows "\<not> n \<ge> cutoff"
    "\<not> (n * 16 + of_nat d < n * 16)" "\<not> (n * 16 + of_nat d > maxVal)"
proof -
  have b: "unat n < 16 ^ 15" using assms(1) pow16_bound [OF assms(2)] by linarith
  show "\<not> n \<ge> cutoff"
    using b by (simp add: word_le_nat_alt cutoff_def)
  have "unat (n * 16) = unat n * 16"
    using step_unat [OF assms(1,2), of 0] by simp
  then show "\<not> (n * 16 + of_nat d < n * 16)"
    using step_unat [OF assms] by (simp add: word_less_nat_alt)
  have m: "maxVal = (- 1 :: uint64)" by (simp add: maxVal_def)
  show "\<not> (n * 16 + of_nat d > maxVal)"
    by (simp add: m not_less)
qed

lemma ParseUint_loop_syntax:
  "unat n < 16 ^ k \<Longrightarrow> k + length (takeWhile is_hex_digit s) \<le> 16 \<Longrightarrow>
   \<not> list_all is_hex_digit s \<Longrightarrow> ParseUint_loop n s = (0, Some ErrSyntax)"
proof (induction s arbitrary: n k)
  case Nil
  then show ?case by simp
next
  case (Cons c cs)
  show ?case
  proof (cases "is_hex_digit c")
    case False
    then show ?thesis
      by (auto simp: is_hex_digit_def split: option.splits)
  next
    case True
    then obtain d where d: "digit_val c = Some d" "d < 16"
      by (auto simp: is_hex_digit_def split: option.splits)
    from Cons.prems True have k: "k < 16" by simp
    note st = step_no_overflow [OF Cons.prems(1) k d(2)]
    have "unat (n * 16 + of_nat d) < 16 ^ Suc k"
      using Cons.prems(1) d(2) by (simp add: step_unat [OF Cons.prems(1) k d(2)])
    moreover have "Suc k + length (takeWhile is_hex_digit cs) \<le> 16"
      using Cons.prems True by simp
    moreover have "\<not> list_all is_hex_digit cs"
      using Cons.prems True by simp
    ultimately have "ParseUint_loop (n * 16 + of_nat d) cs = (0, Some ErrSyntax)"
      by (rule Cons.IH)
    then show ?thesis
      using d st by (simp add: Let_def)
  qed
qed

lemma ParseUint_loop_result:
  "fst (ParseUint_loop n s) = 0 \<and> snd (ParseUint_loop n s) = Some ErrSyntax
   \<or> fst (ParseUint_loop n s) = maxVal \<and> snd (ParseUint_loop n s) = Some ErrRange
   \<or> snd (ParseUint_loop n s) = None \<and> list_all is_hex_digit s"
  by (induction n s rule: ParseUint_loop.induct)
     (auto simp: Let_def is_hex_digit_def split: option.splits)

section \<open>Lemmas about float64 and the positional encodings\<close>

lemma round_half_even_of_int: "round_half_even (of_int z) = z"
  by (simp add: round_half_even_def)

lemma bit_len_pos:
  "0 < m \<Longrightarrow> 1 \<le> bit_len m \<and> 2 ^ nat (bit_len m - 1) \<le> m \<and> m < 2 ^ nat (bit_len m)"
proof (induction m rule: bit_len.induct)
  case (1 n)
  show ?case
  proof (cases "n = 1")
    case True
    then show ?thesis by (simp add: bit_len.simps [of 1] bit_len.simps [of 0])
  next
    case False
    with 1 have h: "0 < n div 2" "\<not> n \<le> 0" by auto
    from 1(1) [OF h(2) h(1)] have ih: "1 \<le> bit_len (n div 2)"
      "2 ^ nat (bit_len (n div 2) - 1) \<le> n div 2" "n div 2 < 2 ^ nat (bit_len (n div 2))" by auto
    have e: "bit_len n = 1 + bit_len (n div 2)" using h by (simp add: bit_len.simps [of n])
    have n1: "nat (bit_len n - 1) = Suc (nat (bit_len (n div 2) - 1))" using e ih(1) by simp
    have n2: "nat (bit_len n) = Suc (nat (bit_len (n div 2)))" using e ih(1) by simp
    have d: "2 * (n div 2) \<le> n" "n < 2 * (n div 2) + 2" by presburger+
    have "2 * 2 ^ nat (bit_len (n div 2) - 1) \<le> n" using ih(2) d(1) by linarith
    moreover have "n < 2 * 2 ^ nat (bit_len (n div 2))" using ih(3) d(2) by linarith
    ultimately show ?thesis using ih(1) e unfolding n1 n2 by simp
  qed
qed

lemma pow2_nonneg: "0 \<le> k \<Longrightarrow> pow2 k = 2 ^ nat k"
  by (simp add: pow2_def)

lemma pow2_nonpos: "k \<le> 0 \<Longrightarrow> pow2 k = 1 / 2 ^ nat (- k)"
  by (cases "k = 0") (simp_all add: pow2_def)

lemma floor_log2_of_int:
  assumes "0 < m"
  shows "floor_log2 (of_int m) = bit_len m - 1"
proof -
  from bit_len_pos [OF assms] have b: "1 \<le> bit_len m" "2 ^ nat (bit_len m - 1) \<le> m" by auto
  have "(2::rat) ^ nat (bit_len m - 1) \<le> of_int m"
    using b(2) by (metis of_int_le_iff of_int_numeral of_int_power)
  then show ?thesis
    using b(1) by (simp add: floor_log2_def bit_len.simps [of 1] bit_len.simps [of 0] pow2_nonneg)
qed

lemma scaled_exact:
  assumes "0 < m" "m \<le> 2 ^ 53" "e = bit_len m - 1"
  shows "of_int (round_half_even (of_int m / pow2 (e - 52))) * pow2 (e - 52) = (of_int m :: rat)"
proof (cases "e \<le> 52")
  case True
  then have p: "pow2 (e - 52) = 1 / 2 ^ nat (52 - e)"
    by (simp add: pow2_nonpos)
  have "of_int m / pow2 (e - 52) = (of_int (m * 2 ^ nat (52 - e)) :: rat)"
    by (simp add: p)
  then have "round_half_even (of_int m / pow2 (e - 52)) = m * 2 ^ nat (52 - e)"
    by (simp only: round_half_even_of_int)
  then show ?thesis by (simp add: p)
next
  case False
  from bit_len_pos [OF assms(1)] assms(3)
  have b: "0 \<le> e" "2 ^ nat e \<le> m" by auto
  have "e \<le> 53"
  proof (rule ccontr)
    assume "\<not> e \<le> 53"
    then have "54 \<le> nat e" by simp
    then have "(2::int) ^ 54 \<le> 2 ^ nat e" by (rule power_increasing) simp
    with b(2) assms(2) show False by simp
  qed
  with False have e: "e = 53" by simp
  with b(2) assms(2) have m: "m = 2 ^ 53" by simp
  have "of_int m / pow2 (e - 52) = (of_int (2 ^ 52) :: rat)"
    by (simp add: e m pow2_def)
  then have "round_half_even (of_int m / pow2 (e - 52)) = 2 ^ 52"
    by (simp only: round_half_even_of_int)
  then show ?thesis by (simp add: e m pow2_def)
qed

lemma float64_of_pos_int_exact:
  assumes "0 < m" "m \<le> 2 ^ 53"
  shows "float64_of_rat (of_int m) = Some (of_int m)"
proof -
  from bit_len_pos [OF assms(1)] have b: "1 \<le> bit_len m" by simp
  have mx: "max (bit_len m - 53) (- 1074) = bit_len m - 53" using b by simp
  have sc: "of_int (round_half_even (of_int m / pow2 (bit_len m - 53))) * pow2 (bit_len m - 53)
      = (of_int m :: rat)"
    using scaled_exact [OF assms refl] by simp
  have small: "\<not> (2 ^ 1024 \<le> (of_int m :: rat))"
  proof -
    have "(of_int m :: rat) \<le> of_int (2 ^ 53)" using assms(2) by (simp only: of_int_le_iff)
    also have "\<dots> < 2 ^ 1024" by simp
    finally show ?thesis by simp
  qed
  have a: "\<bar>of_int m :: rat\<bar> = of_int m" using assms(1) by simp
  show ?thesis
    using assms(1) small
    by (simp add: float64_of_rat_def Let_def a floor_log2_of_int [OF assms(1)] mx sc)
qed

lemma float64_of_rat_minus: "float64_of_rat (- q) = map_option uminus (float64_of_rat q)"
  by (simp add: float64_of_rat_def Let_def sgn_minus)

lemma float64_of_int_exact:
  assumes "\<bar>n\<bar> \<le> 2 ^ 53"
  shows "float64_of_rat (of_int n) = Some (of_int n)"
proof (cases n "0::int" rule: linorder_cases)
  case less
  then have "float64_of_rat (of_int (- n)) = Some (of_int (- n))"
    using assms by (intro float64_of_pos_int_exact) auto
  then show ?thesis
    using float64_of_rat_minus [of "of_int n"] by simp
next
  case equal
  then show ?thesis by (simp add: float64_of_rat_def)
next
  case greater
  then show ?thesis using assms by (intro float64_of_pos_int_exact) auto
qed

lemma int_of_float64_of_int:
  "\<bar>n\<bar> \<le> 2 ^ 53 \<Longrightarrow> int_of_float64 ovf (of_int n) = n"
  by (auto simp: int_of_float64_def Let_def)

lemma valueInterface_int:
  "\<bar>n\<bar> \<le> 2 ^ 53 \<Longrightarrow> valueInterface (JNumber (of_int n)) = Some (AFloat64 (of_int n))"
  by (simp add: float64_of_int_exact)

lemma coerce_valid: "valid_from k s \<Longrightarrow> coerce_from k s = s"
  by (induction k s rule: coerce_from.induct) (auto split: nat.splits)

lemma toValidUTF8_valid: "valid_utf8 s \<Longrightarrow> toValidUTF8 s = s"
  by (simp add: valid_utf8_def toValidUTF8_def coerce_valid)

lemma ROKTableField_roundtrip:
  assumes "valid_utf8 (ROKTableField.Title b)" "valid_utf8 (Field b)" "valid_utf8 (Color b)"
  shows "ROKTableField_UnmarshalJSON b0 (fst (ROKTableField_MarshalJSON b)) = Inr (b, None)"
  using assms
  by (simp add: ROKTableField_MarshalJSON_def ROKTableField_UnmarshalJSON_def Unmarshal_slice_def
      panic_bind_def index_def string_or_zero_def assert_bool_def assert_string_def
      toValidUTF8_valid)

lemma OCRCrop_roundtrip:
  assumes "\<bar>X b\<bar> \<le> 2 ^ 53" "\<bar>Y b\<bar> \<le> 2 ^ 53" "\<bar>W b\<bar> \<le> 2 ^ 53" "\<bar>H b\<bar> \<le> 2 ^ 53"
  shows "OCRCrop_UnmarshalJSON ovf b0 (fst (OCRCrop_MarshalJSON b)) = Inr (b, None)"
  using assms
  by (simp add: OCRCrop_MarshalJSON_def OCRCrop_UnmarshalJSON_def Unmarshal_slice_def
      panic_bind_def index_def assert_float64_def float64_of_int_exact int_of_float64_of_int)


lemma float64_small:
  "float64_of_rat 1 = Some 1" "float64_of_rat 2 = Some 2" "float64_of_rat 3 = Some 3"
  "float64_of_rat 4 = Some 4"
  using float64_of_int_exact [of 1] float64_of_int_exact [of 2] float64_of_int_exact [of 3]
    float64_of_int_exact [of 4]
  by simp_all

lemma float64_digits:
  "float64_of_rat 0 = Some 0" "float64_of_rat 1 = Some 1" "float64_of_rat 2 = Some 2"
  "float64_of_rat 3 = Some 3" "float64_of_rat 4 = Some 4" "float64_of_rat 5 = Some 5"
  "float64_of_rat 6 = Some 6" "float64_of_rat 7 = Some 7" "float64_of_rat 8 = Some 8"
  "float64_of_rat 9 = Some 9"
  using float64_of_int_exact [of 0] float64_of_int_exact [of 1] float64_of_int_exact [of 2]
    float64_of_int_exact [of 3] float64_of_int_exact [of 4] float64_of_int_exact [of 5]
    float64_of_int_exact [of 6] float64_of_int_exact [of 7] float64_of_int_exact [of 8]
    float64_of_int_exact [of 9]
  by simp_all

lemma float64_zero: "float64_of_rat 0 = Some 0"
  by (simp add: float64_of_rat_def)

lemma float64_above_2_53: "float64_of_rat 9007199254740993 = Some 9007199254740992"
  by code_simp

section \<open>Lemmas about encoding and decoding a template\<close>

subsection \<open>Values held in an interface\<close>

lemma update_fresh: "k \<notin> fst ` set m \<Longrightarrow> AList.update k v m = m @ [(k, v)]"
  by (induction m) auto

lemma objectInterface_roundtrip:
  assumes "distinct (map fst kvs)" "fst ` set kvs \<inter> fst ` set m = {}"
    and "\<forall>kv\<in>set kvs. valueInterface (enc (snd kv)) = Some (snd kv)"
  shows "objectInterface m (map (\<lambda>kv. (fst kv, enc (snd kv))) kvs) = Some (m @ kvs)"
  using assms
proof (induction kvs arbitrary: m)
  case Nil
  then show ?case by simp
next
  case (Cons kv kvs)
  have fresh: "fst kv \<notin> fst ` set m" using Cons.prems(2) by auto
  have "objectInterface (m @ [kv]) (map (\<lambda>kv. (fst kv, enc (snd kv))) kvs) = Some ((m @ [kv]) @ kvs)"
    using Cons.prems by (intro Cons.IH) auto
  then show ?case
    using Cons.prems(3) fresh by (simp add: update_fresh)
qed

lemma map_prod_eq: "map (\<lambda>(k, v). (k, f v)) kvs = map (\<lambda>kv. (fst kv, f (snd kv))) kvs"
  by (simp add: case_prod_beta)

lemma sorted_keys_id:
  "sorted (map fst kvs) \<Longrightarrow> sort_key fst (map (\<lambda>kv. (fst kv, f (snd kv))) kvs) = map (\<lambda>kv. (fst kv, f (snd kv))) kvs"
  by (rule sort_key_id_if_sorted) (simp add: comp_def)

lemma coerce_keys_id:
  "list_all (\<lambda>kv. valid_utf8 (fst kv)) kvs \<Longrightarrow>
   map (\<lambda>kv. (toValidUTF8 (fst kv), snd kv)) (map (\<lambda>kv. (fst kv, f (snd kv))) kvs)
     = map (\<lambda>kv. (fst kv, f (snd kv))) kvs"
  by (induction kvs) (simp_all add: toValidUTF8_valid)

lemma encode_entries:
  assumes "sorted (map fst kvs)" "list_all (\<lambda>kv. valid_utf8 (fst kv)) kvs"
  shows "map (\<lambda>kv. (toValidUTF8 (fst kv), snd kv)) (sort_key fst (map (\<lambda>(k, v). (k, f v)) kvs))
       = map (\<lambda>kv. (fst kv, f (snd kv))) kvs"
  by (simp only: map_prod_eq sorted_keys_id [OF assms(1)] coerce_keys_id [OF assms(2)])

lemma arrayInterface_map:
  "\<forall>x\<in>set xs. valueInterface (enc x) = Some x \<Longrightarrow> arrayInterface (map enc xs) = Some xs"
  by (induction xs) simp_all

lemma valueInterface_Marshal_any:
  "json_native a \<Longrightarrow> valueInterface (Marshal_any a) = Some a"
proof (induction a)
  case (ASlice xs)
  then show ?case by (simp add: arrayInterface_map list_all_iff)
next
  case (AMap kvs)
  have v: "list_all (\<lambda>kv. valid_utf8 (fst kv)) kvs"
    using AMap.prems by (simp add: list_all_iff)
  have "\<forall>kv\<in>set kvs. valueInterface (Marshal_any (snd kv)) = Some (snd kv)"
    using AMap by (auto simp: list_all_iff snds.simps)
  then have "objectInterface [] (map (\<lambda>kv. (fst kv, Marshal_any (snd kv))) kvs) = Some ([] @ kvs)"
    using AMap.prems by (intro objectInterface_roundtrip) simp_all
  moreover have s: "sorted (map fst kvs)" using AMap.prems by simp
  ultimately show ?case
    by (simp add: encode_entries [OF s v])
qed (simp_all add: toValidUTF8_valid)


lemma interface_value_agrees:
  "valueInterface x = Some a \<Longrightarrow> interface_value x = a"
  "arrayInterface xs = Some as \<Longrightarrow> map interface_value xs = as"
  "objectInterface m kvs = Some r \<Longrightarrow> interface_object m kvs = r"
proof (induction x and xs and m kvs arbitrary: a and as and r
    rule: valueInterface_arrayInterface_objectInterface.induct)
qed (auto split: option.splits)

lemma decode_interface_Marshal_any:
  assumes "json_native a"
  shows "decode_interface (Marshal_any a) v s = Decoded a s"
proof -
  have v: "valueInterface (Marshal_any a) = Some a"
    using assms by (rule valueInterface_Marshal_any)
  then have i: "interface_value (Marshal_any a) = a"
    by (rule interface_value_agrees)
  show ?thesis
    using assms v i by (cases a) (simp_all add: decode_interface_def)
qed

lemma decode_string_roundtrip:
  "valid_utf8 x \<Longrightarrow> decode_string (JString (toValidUTF8 x)) v s = Decoded x s"
  by (simp add: decode_string_def toValidUTF8_valid)

lemma decode_int_roundtrip:
  "go_int n \<Longrightarrow> decode_int (JNumber (of_int n)) v s = Decoded n s"
  by (simp add: decode_int_def go_int_def)

lemma array_elems_roundtrip:
  "\<forall>x\<in>set xs. \<forall>s. dec (enc x) zero s = Decoded x s \<Longrightarrow>
   array_elems dec zero (map enc xs) [] s = Decoded xs s"
  by (induction xs arbitrary: s) (simp_all add: map_decoded_def)

lemma map_entries_roundtrip:
  assumes "distinct (map fst kvs)" "fst ` set kvs \<inter> fst ` set m = {}"
    and "\<forall>kv\<in>set kvs. \<forall>s. dec (enc (snd kv)) zero s = Decoded (snd kv) s"
  shows "map_entries dec zero (map (\<lambda>kv. (fst kv, enc (snd kv))) kvs) m s = Decoded (m @ kvs) s"
  using assms
proof (induction kvs arbitrary: m s)
  case Nil
  then show ?case by simp
next
  case (Cons kv kvs)
  have fresh: "fst kv \<notin> fst ` set m" using Cons.prems(2) by auto
  have "map_entries dec zero (map (\<lambda>kv. (fst kv, enc (snd kv))) kvs) (m @ [kv]) s
      = Decoded ((m @ [kv]) @ kvs) s"
    using Cons.prems by (intro Cons.IH) auto
  then show ?case
    using Cons.prems(3) fresh by (simp add: update_fresh)
qed


subsection \<open>Crops and table fields\<close>

lemma method_doc_crop:
  "method_doc (OCRCrop_MarshalJSON b)
     = JArray [JNumber (of_int (X b)), JNumber (of_int (Y b)), JNumber (of_int (W b)),
               JNumber (of_int (H b))]"
  by (simp add: method_doc_def OCRCrop_MarshalJSON_def)

lemma decode_crop_roundtrip:
  assumes "exact_crop b"
  shows "decode_crop ovf (method_doc (OCRCrop_MarshalJSON b)) None s = Decoded (Some b) s"
proof -
  have "OCRCrop_UnmarshalJSON ovf zero_crop (fst (OCRCrop_MarshalJSON b)) = Inr (b, None)"
    using assms by (intro OCRCrop_roundtrip) (simp_all add: exact_crop_def)
  then have "OCRCrop_UnmarshalJSON ovf zero_crop (Some (method_doc (OCRCrop_MarshalJSON b)))
      = Inr (b, None)"
    by (simp add: method_doc_crop) (simp add: OCRCrop_MarshalJSON_def)
  then show ?thesis
    by (simp add: decode_crop_def) (simp add: method_doc_crop)
qed

lemma decode_table_field_roundtrip:
  assumes "well_formed_field b"
  shows "decode_table_field (method_doc (ROKTableField_MarshalJSON b)) zero_field s = Decoded b s"
proof -
  have "ROKTableField_UnmarshalJSON zero_field (fst (ROKTableField_MarshalJSON b)) = Inr (b, None)"
    using assms by (intro ROKTableField_roundtrip) (simp_all add: well_formed_field_def)
  moreover have "Some (method_doc (ROKTableField_MarshalJSON b)) = fst (ROKTableField_MarshalJSON b)"
    by (simp add: method_doc_def ROKTableField_MarshalJSON_def)
  ultimately show ?thesis
    by (simp add: decode_table_field_def)
qed

subsection \<open>The fields of a checkpoint\<close>

lemma checkpoint_field_simps:
  "checkpoint_field ovf ''crop'' x v s =
     map_decoded (\<lambda>a. v\<lparr>OCRCheckpoint.Crop := a\<rparr>) (decode_crop ovf x (OCRCheckpoint.Crop v) s)"
  "checkpoint_field ovf ''fingerprint'' x v s =
     map_decoded (\<lambda>a. v\<lparr>OCRCheckpoint.Fingerprint := a\<rparr>)
       (decode_string x (OCRCheckpoint.Fingerprint v) s)"
  by (simp_all add: checkpoint_field_def find_field_def)

lemma step_checkpoint_crop:
  assumes "well_formed_crop c" "OCRCheckpoint.Crop v = None"
  shows "object_fields (checkpoint_field ovf) (omit_crop ''crop'' c @ rest) v s
       = object_fields (checkpoint_field ovf) rest (v\<lparr>OCRCheckpoint.Crop := c\<rparr>) s"
proof (cases c)
  case None
  have "v\<lparr>OCRCheckpoint.Crop := None\<rparr> = v" using assms(2) by (cases v) simp
  then show ?thesis using None by (simp add: omit_crop_def)
next
  case (Some b)
  then have "exact_crop b" using assms(1) by (simp add: well_formed_crop_def)
  then show ?thesis
    using Some assms(2)
    by (simp add: omit_crop_def checkpoint_field_simps decode_crop_roundtrip map_decoded_def)
qed

lemma step_checkpoint_fingerprint:
  assumes "valid_utf8 x" "OCRCheckpoint.Fingerprint v = []"
  shows "object_fields (checkpoint_field ovf) (omit_string ''fingerprint'' x @ rest) v s
       = object_fields (checkpoint_field ovf) rest (v\<lparr>OCRCheckpoint.Fingerprint := x\<rparr>) s"
proof (cases "x = []")
  case True
  have "v\<lparr>OCRCheckpoint.Fingerprint := []\<rparr> = v" using assms(2) by (cases v) simp
  then show ?thesis using True by (simp add: omit_string_def)
next
  case False
  then show ?thesis
    using assms(1)
    by (simp add: omit_string_def checkpoint_field_simps decode_string_roundtrip map_decoded_def)
qed

lemma decode_checkpoint_roundtrip:
  assumes "well_formed_checkpoint b"
  shows "decode_struct (checkpoint_field ovf) (Marshal_checkpoint b) zero_checkpoint s = Decoded b s"
proof -
  have "object_fields (checkpoint_field ovf)
          (omit_crop ''crop'' (OCRCheckpoint.Crop b)
           @ omit_string ''fingerprint'' (OCRCheckpoint.Fingerprint b) @ []) zero_checkpoint s
      = Decoded (zero_checkpoint\<lparr>OCRCheckpoint.Crop := OCRCheckpoint.Crop b,
                  OCRCheckpoint.Fingerprint := OCRCheckpoint.Fingerprint b\<rparr>) s"
    using assms
    by (simp add: well_formed_checkpoint_def zero_checkpoint_def step_checkpoint_crop
        step_checkpoint_fingerprint del: append_Nil2)
  then show ?thesis
    by (simp add: decode_struct_def Marshal_checkpoint_def zero_checkpoint_def)
qed

subsection \<open>The fields of a schema\<close>

lemma schema_field_simps:
  "schema_field ovf ''callback'' x v s =
     map_decoded (\<lambda>a. v\<lparr>Callback := a\<rparr>) (decode_interface x (Callback v) s)"
  "schema_field ovf ''lang'' x v s =
     map_decoded (\<lambda>a. v\<lparr>Languages := a\<rparr>) (decode_slice decode_string [] x (Languages v) s)"
  "schema_field ovf ''oem'' x v s = map_decoded (\<lambda>a. v\<lparr>OEM := a\<rparr>) (decode_int x (OEM v) s)"
  "schema_field ovf ''psm'' x v s = map_decoded (\<lambda>a. v\<lparr>PSM := a\<rparr>) (decode_int x (PSM v) s)"
  "schema_field ovf ''crop'' x v s =
     map_decoded (\<lambda>a. v\<lparr>Crop := a\<rparr>) (decode_crop ovf x (Crop v) s)"
  "schema_field ovf ''allowlist'' x v s =
     map_decoded (\<lambda>a. v\<lparr>AllowList := a\<rparr>) (decode_slice decode_interface ANil x (AllowList v) s)"
  by (simp_all add: schema_field_def find_field_def)

lemma step_schema_callback:
  assumes "json_native a" "Callback v = ANil"
  shows "object_fields (schema_field ovf) (omit_interface ''callback'' a @ rest) v s
       = object_fields (schema_field ovf) rest (v\<lparr>Callback := a\<rparr>) s"
proof (cases "a = ANil")
  case True
  have "v\<lparr>Callback := ANil\<rparr> = v" using assms(2) by (cases v) simp
  then show ?thesis using True by (simp add: omit_interface_def)
next
  case False
  then show ?thesis
    using assms(1)
    by (simp add: omit_interface_def schema_field_simps decode_interface_Marshal_any
        map_decoded_def)
qed

lemma step_schema_lang:
  assumes "list_all valid_utf8 xs" "Languages v = []"
  shows "object_fields (schema_field ovf) (omit_array ''lang'' (map (\<lambda>s. JString (toValidUTF8 s)) xs) @ rest) v s
       = object_fields (schema_field ovf) rest (v\<lparr>Languages := xs\<rparr>) s"
proof (cases "xs = []")
  case True
  have "v\<lparr>Languages := []\<rparr> = v" using assms(2) by (cases v) simp
  then show ?thesis using True by (simp add: omit_array_def)
next
  case False
  have "array_elems decode_string [] (map (\<lambda>s. JString (toValidUTF8 s)) xs) [] s = Decoded xs s"
    using assms(1) by (intro array_elems_roundtrip) (simp add: list_all_iff decode_string_roundtrip)
  then show ?thesis
    using False assms(2)
    by (simp add: omit_array_def schema_field_simps decode_slice_def map_decoded_def)
qed

lemma step_schema_oem:
  assumes "go_int n" "OEM v = 0"
  shows "object_fields (schema_field ovf) (omit_int ''oem'' n @ rest) v s
       = object_fields (schema_field ovf) rest (v\<lparr>OEM := n\<rparr>) s"
proof (cases "n = 0")
  case True
  have "v\<lparr>OEM := 0\<rparr> = v" using assms(2) by (cases v) simp
  then show ?thesis using True by (simp add: omit_int_def)
next
  case False
  then show ?thesis
    using assms(1)
    by (simp add: omit_int_def schema_field_simps decode_int_roundtrip map_decoded_def)
qed

lemma step_schema_psm:
  assumes "go_int n" "PSM v = 0"
  shows "object_fields (schema_field ovf) (omit_int ''psm'' n @ rest) v s
       = object_fields (schema_field ovf) rest (v\<lparr>PSM := n\<rparr>) s"
proof (cases "n = 0")
  case True
  have "v\<lparr>PSM := 0\<rparr> = v" using assms(2) by (cases v) simp
  then show ?thesis using True by (simp add: omit_int_def)
next
  case False
  then show ?thesis
    using assms(1)
    by (simp add: omit_int_def schema_field_simps decode_int_roundtrip map_decoded_def)
qed

lemma step_schema_crop:
  assumes "well_formed_crop c" "Crop v = None"
  shows "object_fields (schema_field ovf) (omit_crop ''crop'' c @ rest) v s
       = object_fields (schema_field ovf) rest (v\<lparr>Crop := c\<rparr>) s"
proof (cases c)
  case None
  have "v\<lparr>Crop := None\<rparr> = v" using assms(2) by (cases v) simp
  then show ?thesis using None by (simp add: omit_crop_def)
next
  case (Some b)
  then have "exact_crop b" using assms(1) by (simp add: well_formed_crop_def)
  then show ?thesis
    using Some assms(2)
    by (simp add: omit_crop_def schema_field_simps decode_crop_roundtrip map_decoded_def)
qed

lemma step_schema_allowlist:
  assumes "list_all json_native xs" "AllowList v = []"
  shows "object_fields (schema_field ovf) (omit_array ''allowlist'' (map Marshal_any xs) @ rest) v s
       = object_fields (schema_field ovf) rest (v\<lparr>AllowList := xs\<rparr>) s"
proof (cases "xs = []")
  case True
  have "v\<lparr>AllowList := []\<rparr> = v" using assms(2) by (cases v) simp
  then show ?thesis using True by (simp add: omit_array_def)
next
  case False
  have "array_elems decode_interface ANil (map Marshal_any xs) [] s = Decoded xs s"
    using assms(1) by (intro array_elems_roundtrip) (simp add: list_all_iff decode_interface_Marshal_any)
  then show ?thesis
    using False assms(2)
    by (simp add: omit_array_def schema_field_simps decode_slice_def map_decoded_def)
qed

lemma decode_schema_roundtrip:
  assumes "well_formed_schema b"
  shows "decode_struct (schema_field ovf) (Marshal_schema b) zero_schema s = Decoded b s"
proof -
  have "object_fields (schema_field ovf)
          (omit_interface ''callback'' (Callback b)
           @ omit_array ''lang'' (map (\<lambda>s. JString (toValidUTF8 s)) (Languages b))
           @ omit_int ''oem'' (OEM b)
           @ omit_int ''psm'' (PSM b)
           @ omit_crop ''crop'' (Crop b)
           @ omit_array ''allowlist'' (map Marshal_any (AllowList b)) @ []) zero_schema s
      = Decoded (zero_schema\<lparr>Callback := Callback b, Languages := Languages b, OEM := OEM b,
                  PSM := PSM b, Crop := Crop b, AllowList := AllowList b\<rparr>) s"
    using assms
    by (simp add: well_formed_schema_def zero_schema_def step_schema_callback step_schema_lang
        step_schema_oem step_schema_psm step_schema_crop step_schema_allowlist del: append_Nil2)
  then show ?thesis
    by (simp add: decode_struct_def Marshal_schema_def zero_schema_def)
qed

subsection \<open>The fields of a template\<close>

lemma template_field_simps:
  "template_field ovf ''title'' x v s = map_decoded (\<lambda>a. v\<lparr>Title := a\<rparr>) (decode_string x (Title v) s)"
  "template_field ovf ''version'' x v s = map_decoded (\<lambda>a. v\<lparr>Version := a\<rparr>) (decode_string x (Version v) s)"
  "template_field ovf ''author'' x v s = map_decoded (\<lambda>a. v\<lparr>Author := a\<rparr>) (decode_string x (Author v) s)"
  "template_field ovf ''width'' x v s = map_decoded (\<lambda>a. v\<lparr>Width := a\<rparr>) (decode_int x (Width v) s)"
  "template_field ovf ''height'' x v s = map_decoded (\<lambda>a. v\<lparr>Height := a\<rparr>) (decode_int x (Height v) s)"
  "template_field ovf ''ocr_schema'' x v s =
     map_decoded (\<lambda>a. v\<lparr>OCRSchema := a\<rparr>)
       (decode_map (decode_struct (schema_field ovf)) zero_schema x (OCRSchema v) s)"
  "template_field ovf ''fingerprint'' x v s =
     map_decoded (\<lambda>a. v\<lparr>Fingerprint := a\<rparr>) (decode_string x (Fingerprint v) s)"
  "template_field ovf ''threshold'' x v s =
     map_decoded (\<lambda>a. v\<lparr>Threshold := a\<rparr>) (decode_int x (Threshold v) s)"
  "template_field ovf ''table'' x v s =
     map_decoded (\<lambda>a. v\<lparr>Table := a\<rparr>) (decode_slice decode_table_field zero_field x (Table v) s)"
  "template_field ovf ''checkpoints'' x v s =
     map_decoded (\<lambda>a. v\<lparr>Checkpoints := a\<rparr>)
       (decode_slice (decode_struct (checkpoint_field ovf)) zero_checkpoint x (Checkpoints v) s)"
  by (simp_all add: template_field_def find_field_def)

lemma step_template_title:
  assumes "valid_utf8 x" "Title v = []"
  shows "object_fields (template_field ovf) (omit_string ''title'' x @ rest) v s
       = object_fields (template_field ovf) rest (v\<lparr>Title := x\<rparr>) s"
proof (cases "x = []")
  case True
  have "v\<lparr>Title := []\<rparr> = v" using assms(2) by (cases v) simp
  then show ?thesis using True by (simp add: omit_string_def)
next
  case False
  then show ?thesis
    using assms(1)
    by (simp add: omit_string_def template_field_simps decode_string_roundtrip map_decoded_def)
qed

lemma step_template_version:
  assumes "valid_utf8 x" "Version v = []"
  shows "object_fields (template_field ovf) (omit_string ''version'' x @ rest) v s
       = object_fields (template_field ovf) rest (v\<lparr>Version := x\<rparr>) s"
proof (cases "x = []")
  case True
  have "v\<lparr>Version := []\<rparr> = v" using assms(2) by (cases v) simp
  then show ?thesis using True by (simp add: omit_string_def)
next
  case False
  then show ?thesis
    using assms(1)
    by (simp add: omit_string_def template_field_simps decode_string_roundtrip map_decoded_def)
qed

lemma step_template_author:
  assumes "valid_utf8 x" "Author v = []"
  shows "object_fields (template_field ovf) (omit_string ''author'' x @ rest) v s
       = object_fields (template_field ovf) rest (v\<lparr>Author := x\<rparr>) s"
proof (cases "x = []")
  case True
  have "v\<lparr>Author := []\<rparr> = v" using assms(2) by (cases v) simp
  then show ?thesis using True by (simp add: omit_string_def)
next
  case False
  then show ?thesis
    using assms(1)
    by (simp add: omit_string_def template_field_simps decode_string_roundtrip map_decoded_def)
qed

lemma step_template_width:
  assumes "go_int n" "Width v = 0"
  shows "object_fields (template_field ovf) (omit_int ''width'' n @ rest) v s
       = object_fields (template_field ovf) rest (v\<lparr>Width := n\<rparr>) s"
proof (cases "n = 0")
  case True
  have "v\<lparr>Width := 0\<rparr> = v" using assms(2) by (cases v) simp
  then show ?thesis using True by (simp add: omit_int_def)
next
  case False
  then show ?thesis
    using assms(1)
    by (simp add: omit_int_def template_field_simps decode_int_roundtrip map_decoded_def)
qed

lemma step_template_height:
  assumes "go_int n" "Height v = 0"
  shows "object_fields (template_field ovf) (omit_int ''height'' n @ rest) v s
       = object_fields (template_field ovf) rest (v\<lparr>Height := n\<rparr>) s"
proof (cases "n = 0")
  case True
  have "v\<lparr>Height := 0\<rparr> = v" using assms(2) by (cases v) simp
  then show ?thesis using True by (simp add: omit_int_def)
next
  case False
  then show ?thesis
    using assms(1)
    by (simp add: omit_int_def template_field_simps decode_int_roundtrip map_decoded_def)
qed

lemma step_template_ocr_schema:
  assumes "sorted (map fst kvs)" "distinct (map fst kvs)"
    and "list_all (\<lambda>kv. valid_utf8 (fst kv) \<and> well_formed_schema (snd kv)) kvs"
    and "OCRSchema v = []"
  shows "object_fields (template_field ovf)
           (omit_map ''ocr_schema'' (map (\<lambda>(k, b). (k, Marshal_schema b)) kvs) @ rest) v s
       = object_fields (template_field ovf) rest (v\<lparr>OCRSchema := kvs\<rparr>) s"
proof (cases "kvs = []")
  case True
  have "v\<lparr>OCRSchema := []\<rparr> = v" using assms(4) by (cases v) simp
  then show ?thesis using True by (simp add: omit_map_def)
next
  case False
  have keys: "list_all (\<lambda>kv. valid_utf8 (fst kv)) kvs"
    using assms(3) by (simp add: list_all_iff)
  have "map_entries (decode_struct (schema_field ovf)) zero_schema
          (map (\<lambda>kv. (fst kv, Marshal_schema (snd kv))) kvs) [] s = Decoded ([] @ kvs) s"
    using assms(2,3) by (intro map_entries_roundtrip) (simp_all add: list_all_iff decode_schema_roundtrip)
  then show ?thesis
    using False assms(4)
    by (simp add: omit_map_def encode_entries [OF assms(1) keys] template_field_simps
        decode_map_def map_decoded_def)
qed

lemma step_template_fingerprint:
  assumes "valid_utf8 x" "Fingerprint v = []"
  shows "object_fields (template_field ovf) (omit_string ''fingerprint'' x @ rest) v s
       = object_fields (template_field ovf) rest (v\<lparr>Fingerprint := x\<rparr>) s"
proof (cases "x = []")
  case True
  have "v\<lparr>Fingerprint := []\<rparr> = v" using assms(2) by (cases v) simp
  then show ?thesis using True by (simp add: omit_string_def)
next
  case False
  then show ?thesis
    using assms(1)
    by (simp add: omit_string_def template_field_simps decode_string_roundtrip map_decoded_def)
qed

lemma step_template_threshold:
  assumes "go_int n" "Threshold v = 0"
  shows "object_fields (template_field ovf) (omit_int ''threshold'' n @ rest) v s
       = object_fields (template_field ovf) rest (v\<lparr>Threshold := n\<rparr>) s"
proof (cases "n = 0")
  case True
  have "v\<lparr>Threshold := 0\<rparr> = v" using assms(2) by (cases v) simp
  then show ?thesis using True by (simp add: omit_int_def)
next
  case False
  then show ?thesis
    using assms(1)
    by (simp add: omit_int_def template_field_simps decode_int_roundtrip map_decoded_def)
qed

lemma step_template_table:
  assumes "list_all well_formed_field xs" "Table v = []"
  shows "object_fields (template_field ovf) (omit_array ''table'' (map (\<lambda>f. method_doc (ROKTableField_MarshalJSON f)) xs) @ rest) v s
       = object_fields (template_field ovf) rest (v\<lparr>Table := xs\<rparr>) s"
proof (cases "xs = []")
  case True
  have "v\<lparr>Table := []\<rparr> = v" using assms(2) by (cases v) simp
  then show ?thesis using True by (simp add: omit_array_def)
next
  case False
  have "array_elems decode_table_field zero_field (map (\<lambda>f. method_doc (ROKTableField_MarshalJSON f)) xs) [] s = Decoded xs s"
    using assms(1) by (intro array_elems_roundtrip) (simp add: list_all_iff decode_table_field_roundtrip)
  then show ?thesis
    using False assms(2)
    by (simp add: omit_array_def template_field_simps decode_slice_def map_decoded_def)
qed

lemma step_template_checkpoints:
  assumes "list_all well_formed_checkpoint xs" "Checkpoints v = []"
  shows "object_fields (template_field ovf) (omit_array ''checkpoints'' (map Marshal_checkpoint xs) @ rest) v s
       = object_fields (template_field ovf) rest (v\<lparr>Checkpoints := xs\<rparr>) s"
proof (cases "xs = []")
  case True
  have "v\<lparr>Checkpoints := []\<rparr> = v" using assms(2) by (cases v) simp
  then show ?thesis using True by (simp add: omit_array_def)
next
  case False
  have "array_elems (decode_struct (checkpoint_field ovf)) zero_checkpoint (map Marshal_checkpoint xs) [] s = Decoded xs s"
    using assms(1) by (intro array_elems_roundtrip) (simp add: list_all_iff decode_checkpoint_roundtrip)
  then show ?thesis
    using False assms(2)
    by (simp add: omit_array_def template_field_simps decode_slice_def map_decoded_def)
qed

lemma decode_template_roundtrip:
  assumes "well_formed_template b"
  shows "decode_template ovf (Marshal_template b) zero_template = Inr (b, None)"
proof -
  have "object_fields (template_field ovf)
          (omit_string ''title'' (Title b)
           @ omit_string ''version'' (Version b)
           @ omit_string ''author'' (Author b)
           @ omit_int ''width'' (Width b)
           @ omit_int ''height'' (Height b)
           @ omit_map ''ocr_schema'' (map (\<lambda>(k, v). (k, Marshal_schema v)) (OCRSchema b))
           @ omit_string ''fingerprint'' (Fingerprint b)
           @ omit_int ''threshold'' (Threshold b)
           @ omit_array ''table'' (map (\<lambda>f. method_doc (ROKTableField_MarshalJSON f)) (Table b))
           @ omit_array ''checkpoints'' (map Marshal_checkpoint (Checkpoints b)) @ [])
          zero_template None
      = Decoded (zero_template\<lparr>Title := Title b, Version := Version b, Author := Author b,
                  Width := Width b, Height := Height b, OCRSchema := OCRSchema b,
                  Fingerprint := Fingerprint b, Threshold := Threshold b, Table := Table b,
                  Checkpoints := Checkpoints b\<rparr>) None"
    using assms
    by (simp add: well_formed_template_def zero_template_def step_template_title
        step_template_version step_template_author step_template_width step_template_height
        step_template_ocr_schema step_template_fingerprint step_template_threshold
        step_template_table step_template_checkpoints del: append_Nil2)
  then show ?thesis
    by (simp add: decode_template_def decode_struct_def Marshal_template_def zero_template_def)
qed

lemma profile_well_formed: "well_formed_template profile_template"
  by code_simp

section \<open>The claims\<close>

text \<open>
  C1. A template without checkpoints matches an image exactly when the Hamming distance
  between the image's difference hash and the template's decoded fingerprint is at most
  the template's threshold; with threshold 0 it matches exactly when the two hashes are
  equal. The image is not nil.
\<close>

theorem Matches_without_checkpoints:
  assumes "Checkpoints T = []"
  shows "Matches dhash CropImage T (Some i) =
           Inr (int (HammingDistance (dhash i) (decoded_fingerprint (Fingerprint T))) \<le> Threshold T)
       \<and> (Threshold T = 0 \<longrightarrow>
            (Matches dhash CropImage T (Some i) = Inr True
               \<longleftrightarrow> dhash i = decoded_fingerprint (Fingerprint T)))"
  using assms
  by (simp add: Matches_def DifferenceHash_def Match_image HammingDistance_zero_iff)

theorem Matches_without_checkpoints_witness:
  "Checkpoints exact_template = [] \<and> Threshold exact_template = 0
   \<and> Matches stub_dhash stub_crop exact_template (Some 0) = Inr True
   \<and> Matches stub_dhash stub_crop exact_template (Some 1) = Inr False"
proof -
  have c: "Checkpoints exact_template = []" and t: "Threshold exact_template = 0"
    and f: "decoded_fingerprint (Fingerprint exact_template) = 0"
    by (simp_all add: exact_template_def zero_template_def decoded_zeros)
  have d: "HammingDistance 1 0 = 1"
    unfolding HammingDistance_def by code_simp
  show ?thesis
    using Matches_without_checkpoints [OF c, of stub_dhash stub_crop 0]
      Matches_without_checkpoints [OF c, of stub_dhash stub_crop 1]
    by (simp add: c t f d stub_dhash_def HammingDistance_zero_iff)
qed


text \<open>
  C2. For a template with checkpoints, each of which has a rectangle at which the crop
  gives a sub-image, \<open>Matches\<close> is true exactly when every checkpoint's sub-image hash
  is within distance 1 of the checkpoint's decoded fingerprint, whatever the template's
  threshold. The checkpoints are tried in order: when one fails after all the earlier
  ones passed, the result is false whatever the later checkpoints are, also when one of
  them could not be evaluated at all.
\<close>

theorem Matches_with_checkpoints:
  assumes "Checkpoints T \<noteq> []"
  shows "((\<forall>s\<in>set (Checkpoints T). checkpoint_ok dhash CropImage img s \<noteq> None) \<longrightarrow>
           Matches dhash CropImage T img =
             Inr (\<forall>s\<in>set (Checkpoints T). checkpoint_ok dhash CropImage img s = Some True))
       \<and> (\<forall>pre s post.
             Checkpoints T = pre @ s # post \<and>
             (\<forall>s'\<in>set pre. checkpoint_ok dhash CropImage img s' = Some True) \<and>
             checkpoint_ok dhash CropImage img s = Some False \<longrightarrow>
             Matches dhash CropImage T img = Inr False)"
  using assms
  by (auto simp: Matches_def Matches_loop_all Matches_loop_first_failure split: prod.splits)

theorem Matches_with_checkpoints_witness:
  "Checkpoints single_anchor_template \<noteq> []
   \<and> Matches stub_dhash stub_crop single_anchor_template (Some 0) = Inr True
   \<and> Checkpoints anchored_template = [first_anchor] @ second_anchor # [broken_anchor]
   \<and> checkpoint_ok stub_dhash stub_crop (Some 0) first_anchor = Some True
   \<and> checkpoint_ok stub_dhash stub_crop (Some 0) second_anchor = Some False
   \<and> checkpoint_ok stub_dhash stub_crop (Some 0) broken_anchor = None
   \<and> Matches stub_dhash stub_crop anchored_template (Some 0) = Inr False"
proof -
  have c1: "Checkpoints single_anchor_template = [first_anchor]"
    by (simp add: single_anchor_template_def)
  have c2: "Checkpoints anchored_template = [first_anchor] @ second_anchor # [broken_anchor]"
    by (simp add: anchored_template_def)
  have n1: "Checkpoints single_anchor_template \<noteq> []" and n2: "Checkpoints anchored_template \<noteq> []"
    by (simp_all add: c1 c2)
  have b: "checkpoint_ok stub_dhash stub_crop (Some 0) broken_anchor = None"
    by (simp add: checkpoint_ok_def broken_anchor_def)
  have m1: "Matches stub_dhash stub_crop single_anchor_template (Some 0) = Inr True"
    using Matches_with_checkpoints [OF n1, of stub_dhash stub_crop "Some 0", THEN conjunct1]
    by (simp add: c1 first_anchor_ok)
  have pre: "\<forall>s'\<in>set [first_anchor]. checkpoint_ok stub_dhash stub_crop (Some 0) s' = Some True"
    by (simp add: first_anchor_ok)
  have m2: "Matches stub_dhash stub_crop anchored_template (Some 0) = Inr False"
    using Matches_with_checkpoints [OF n2, of stub_dhash stub_crop "Some 0", THEN conjunct2,
        rule_format, of "[first_anchor]" second_anchor "[broken_anchor]"]
      c2 pre second_anchor_ok
    by blast
  show ?thesis
    using n1 m1 c2 first_anchor_ok second_anchor_ok b m2 by (intro conjI)
qed

text \<open>
  C3. Two templates with the same non-empty list of checkpoints give the same result on
  every image: the fingerprint and the threshold of the template play no part.
\<close>

theorem Matches_ignores_fingerprint_and_threshold:
  assumes "Checkpoints T1 = Checkpoints T2" and "Checkpoints T1 \<noteq> []"
  shows "Matches dhash CropImage T1 img = Matches dhash CropImage T2 img"
  using assms by (simp add: Matches_def split: prod.splits)

theorem Matches_ignores_fingerprint_and_threshold_witness:
  "Checkpoints (single_anchor_template\<lparr>Fingerprint := ''ffffffffffffffff'', Threshold := 64\<rparr>)
     = Checkpoints single_anchor_template
   \<and> Checkpoints (single_anchor_template\<lparr>Fingerprint := ''ffffffffffffffff'', Threshold := 64\<rparr>) \<noteq> []
   \<and> Matches stub_dhash stub_crop
         (single_anchor_template\<lparr>Fingerprint := ''ffffffffffffffff'', Threshold := 64\<rparr>) (Some 0)
       = Matches stub_dhash stub_crop single_anchor_template (Some 0)"
proof -
  have e: "Checkpoints (single_anchor_template\<lparr>Fingerprint := ''ffffffffffffffff'', Threshold := 64\<rparr>)
     = Checkpoints single_anchor_template" by simp
  have n: "Checkpoints (single_anchor_template\<lparr>Fingerprint := ''ffffffffffffffff'', Threshold := 64\<rparr>) \<noteq> []"
    by (simp add: single_anchor_template_def)
  show ?thesis
    using e n Matches_ignores_fingerprint_and_threshold [OF e n, of stub_dhash stub_crop "Some 0"]
    by (intro conjI)
qed

text \<open>
  C4. \<open>Matches\<close> and \<open>Match\<close> are not total: a checkpoint without a crop rectangle
  makes \<open>Matches\<close> panic on every image instead of returning false, a nil sub-image
  makes \<open>hashMatches\<close> panic, and a nil hash makes \<open>Match\<close> panic.
\<close>

theorem Matches_nil_crop_panics:
  "Matches dhash CropImage (zero_template\<lparr>Checkpoints := [broken_anchor]\<rparr>) img = Inl NilDereference
   \<and> hashMatches dhash None expectedHash = Inl NilDereference
   \<and> Match T None = Inl NilDereference"
  by (simp add: Matches_def broken_anchor_def CropRectange_def Match_def Hash_def
      differenceHashFromString_eq NewImageHash_def Distance_def hashMatches_def
      DifferenceHash_def split: prod.splits)

text \<open>
  C5. The two \<^verbatim>\<open>UnmarshalJSON\<close> methods evaluated on the malformed arrays of the claim:
  an array of fewer than four elements and JSON null panic with an index out of range; a
  non-boolean at index 2 of a table field and a non-number in a crop panic with a failed
  type assertion; a non-string at index 0 or 1 of a table field is accepted and leaves
  the empty string. None of them returns an error.
\<close>

theorem UnmarshalJSON_panics_on_malformed_array:
  "ROKTableField_UnmarshalJSON b (Some (JArray [JString ''Name'', JString ''player_name'']))
     = Inl IndexOutOfRange
   \<and> ROKTableField_UnmarshalJSON b
        (Some (JArray [JString ''Name'', JString ''player_name'', JString ''yes'', JString ''#FFFFFF'']))
     = Inl TypeAssertion
   \<and> ROKTableField_UnmarshalJSON b
        (Some (JArray [JNumber 1, JNumber 2, JBool True, JString ''#FFFFFF'']))
     = Inr (\<lparr>ROKTableField.Title = [], Field = [], Bold = True, Color = ''#FFFFFF''\<rparr>, None)
   \<and> OCRCrop_UnmarshalJSON ovf c (Some (JArray [JNumber 1, JNumber 2, JNumber 3]))
     = Inl IndexOutOfRange
   \<and> OCRCrop_UnmarshalJSON ovf c (Some (JArray [JNumber 1, JString ''2'', JNumber 3, JNumber 4]))
     = Inl TypeAssertion
   \<and> ROKTableField_UnmarshalJSON b (Some JNull) = Inl IndexOutOfRange
   \<and> OCRCrop_UnmarshalJSON ovf c (Some JNull) = Inl IndexOutOfRange"
  by (simp add: ROKTableField_UnmarshalJSON_def OCRCrop_UnmarshalJSON_def Unmarshal_slice_def
      panic_bind_def index_def string_or_zero_def assert_bool_def assert_string_def
      assert_float64_def float64_small)

text \<open>
  C6. Encoding and then decoding gives the value back, field for field, for the values
  that are well formed in the following sense. A table field whose three strings are
  valid UTF-8 encodes to the array of its title, field, bold flag and colour, and decoding
  that array gives the table field back. A crop encodes to the array of its X, Y, W and
  H, and decoding that array gives the crop back when each of the four has a magnitude
  of at most \<open>2 ^ 53\<close>: the decoder reads every number as a float64. A template that
  json.Marshal has encoded is decoded by json.Unmarshal, from the zero template, to
  the same template and no error when its strings are valid UTF-8, its crops are exact
  in that sense, and the callback and the allow list of every schema hold only values
  of the kinds the decoder stores in an \<^verbatim>\<open>interface{}\<close>.
\<close>

theorem encoding_roundtrip:
  "(well_formed_field t \<longrightarrow>
      ROKTableField_MarshalJSON t =
        (Some (JArray [JString (ROKTableField.Title t), JString (Field t), JBool (Bold t),
                       JString (Color t)]), None)
      \<and> ROKTableField_UnmarshalJSON t0 (fst (ROKTableField_MarshalJSON t)) = Inr (t, None))
   \<and> OCRCrop_MarshalJSON c =
      (Some (JArray [JNumber (of_int (X c)), JNumber (of_int (Y c)), JNumber (of_int (W c)),
                     JNumber (of_int (H c))]), None)
   \<and> (exact_crop c \<longrightarrow> OCRCrop_UnmarshalJSON ovf c0 (fst (OCRCrop_MarshalJSON c)) = Inr (c, None))
   \<and> (well_formed_template T \<longrightarrow>
        decode_template ovf (Marshal_template T) zero_template = Inr (T, None))"
proof -
  have field: "ROKTableField_MarshalJSON t =
        (Some (JArray [JString (ROKTableField.Title t), JString (Field t), JBool (Bold t),
                       JString (Color t)]), None)
      \<and> ROKTableField_UnmarshalJSON t0 (fst (ROKTableField_MarshalJSON t)) = Inr (t, None)"
    if "well_formed_field t"
  proof
    show "ROKTableField_MarshalJSON t =
        (Some (JArray [JString (ROKTableField.Title t), JString (Field t), JBool (Bold t),
                       JString (Color t)]), None)"
      using that by (simp add: well_formed_field_def ROKTableField_MarshalJSON_def toValidUTF8_valid)
    show "ROKTableField_UnmarshalJSON t0 (fst (ROKTableField_MarshalJSON t)) = Inr (t, None)"
      using that by (intro ROKTableField_roundtrip) (simp_all add: well_formed_field_def)
  qed
  have doc: "OCRCrop_MarshalJSON c =
      (Some (JArray [JNumber (of_int (X c)), JNumber (of_int (Y c)), JNumber (of_int (W c)),
                     JNumber (of_int (H c))]), None)"
    by (simp add: OCRCrop_MarshalJSON_def)
  have crop: "OCRCrop_UnmarshalJSON ovf c0 (fst (OCRCrop_MarshalJSON c)) = Inr (c, None)"
    if "exact_crop c"
    using that by (intro OCRCrop_roundtrip) (simp_all add: exact_crop_def)
  have template: "decode_template ovf (Marshal_template T) zero_template = Inr (T, None)"
    if "well_formed_template T"
    using that by (rule decode_template_roundtrip)
  show ?thesis
    using field doc crop template by blast
qed

theorem encoding_roundtrip_witness:
  "well_formed_field name_column
   \<and> ROKTableField_UnmarshalJSON zero_field
         (Some (JArray [JString ''Name'', JString ''player_name'', JBool True, JString ''#FFFFFF'']))
       = Inr (name_column, None)
   \<and> exact_crop \<lparr>X = 10, Y = 20, W = 300, H = 40\<rparr>
   \<and> OCRCrop_UnmarshalJSON amd64_ovf zero_crop
         (Some (JArray [JNumber 10, JNumber 20, JNumber 300, JNumber 40]))
       = Inr (\<lparr>X = 10, Y = 20, W = 300, H = 40\<rparr>, None)
   \<and> well_formed_template profile_template
   \<and> decode_template amd64_ovf (Marshal_template profile_template) zero_template
       = Inr (profile_template, None)"
proof -
  have f: "well_formed_field name_column"
    by (simp add: well_formed_field_def name_column_def valid_utf8_def rune_len_def)
  have c: "exact_crop \<lparr>X = 10, Y = 20, W = 300, H = 40\<rparr>"
    by (simp add: exact_crop_def)
  note r = encoding_roundtrip [of name_column zero_field "\<lparr>X = 10, Y = 20, W = 300, H = 40\<rparr>"
      amd64_ovf zero_crop profile_template]
  have "ROKTableField_UnmarshalJSON zero_field (fst (ROKTableField_MarshalJSON name_column))
       = Inr (name_column, None)"
    using r [THEN conjunct1] f by blast
  then have 1: "ROKTableField_UnmarshalJSON zero_field
         (Some (JArray [JString ''Name'', JString ''player_name'', JBool True, JString ''#FFFFFF'']))
       = Inr (name_column, None)"
    using f
    by (simp add: ROKTableField_MarshalJSON_def well_formed_field_def toValidUTF8_valid)
       (simp add: name_column_def)
  have "OCRCrop_UnmarshalJSON amd64_ovf zero_crop
         (fst (OCRCrop_MarshalJSON \<lparr>X = 10, Y = 20, W = 300, H = 40\<rparr>))
       = Inr (\<lparr>X = 10, Y = 20, W = 300, H = 40\<rparr>, None)"
    using r [THEN conjunct2, THEN conjunct2, THEN conjunct1] c by blast
  then have 2: "OCRCrop_UnmarshalJSON amd64_ovf zero_crop
         (Some (JArray [JNumber 10, JNumber 20, JNumber 300, JNumber 40]))
       = Inr (\<lparr>X = 10, Y = 20, W = 300, H = 40\<rparr>, None)"
    by (simp add: OCRCrop_MarshalJSON_def)
  have 3: "decode_template amd64_ovf (Marshal_template profile_template) zero_template
       = Inr (profile_template, None)"
    using r [THEN conjunct2, THEN conjunct2, THEN conjunct2] profile_well_formed by blast
  show ?thesis
    using f 1 c 2 profile_well_formed 3 by (intro conjI)
qed

text \<open>
  Three values that do not survive encoding and decoding. The crop with
  \<open>X = 2 ^ 53 + 1\<close> comes back with \<open>X = 2 ^ 53\<close>: the number is read as a float64.
  The table field whose title is the byte \<^verbatim>\<open>FF\<close> comes back with the title U+FFFD,
  which json.Marshal wrote in its place. The template with the schema that
  \<open>NewNumberField\<close> builds comes back with the callback \<^verbatim>\<open>[]interface{}{}\<close> in place of
  \<^verbatim>\<open>[]string{}\<close> and with the ten digits of the allow list as float64 in place of int.
\<close>

theorem roundtrip_counterexample:
  "OCRCrop_UnmarshalJSON amd64_ovf zero_crop
     (fst (OCRCrop_MarshalJSON \<lparr>X = 9007199254740993, Y = 0, W = 0, H = 0\<rparr>))
   = Inr (\<lparr>X = 9007199254740992, Y = 0, W = 0, H = 0\<rparr>, None)
   \<and> \<lparr>X = 9007199254740992, Y = 0, W = 0, H = 0\<rparr> \<noteq> \<lparr>X = 9007199254740993, Y = 0, W = 0, H = 0\<rparr>
   \<and> ROKTableField_UnmarshalJSON zero_field (fst (ROKTableField_MarshalJSON byte_column))
     = Inr (byte_column\<lparr>ROKTableField.Title := replacement\<rparr>, None)
   \<and> byte_column\<lparr>ROKTableField.Title := replacement\<rparr> \<noteq> byte_column
   \<and> decode_template amd64_ovf (Marshal_template number_template) zero_template
     = Inr (zero_template\<lparr>OCRSchema :=
              [(''power'', (NewNumberField None)\<lparr>Callback := ASlice [],
                  AllowList := [AFloat64 0, AFloat64 1, AFloat64 2, AFloat64 3, AFloat64 4,
                                AFloat64 5, AFloat64 6, AFloat64 7, AFloat64 8, AFloat64 9]\<rparr>)]\<rparr>, None)
   \<and> zero_template\<lparr>OCRSchema :=
         [(''power'', (NewNumberField None)\<lparr>Callback := ASlice [],
             AllowList := [AFloat64 0, AFloat64 1, AFloat64 2, AFloat64 3, AFloat64 4,
                           AFloat64 5, AFloat64 6, AFloat64 7, AFloat64 8, AFloat64 9]\<rparr>)]\<rparr>
       \<noteq> number_template"
proof -
  have 1: "OCRCrop_UnmarshalJSON amd64_ovf zero_crop
     (fst (OCRCrop_MarshalJSON \<lparr>X = 9007199254740993, Y = 0, W = 0, H = 0\<rparr>))
   = Inr (\<lparr>X = 9007199254740992, Y = 0, W = 0, H = 0\<rparr>, None)"
    by (simp add: OCRCrop_MarshalJSON_def OCRCrop_UnmarshalJSON_def Unmarshal_slice_def
      panic_bind_def index_def assert_float64_def float64_above_2_53 float64_zero
      int_of_float64_def zero_crop_def)
  have 2: "ROKTableField_UnmarshalJSON zero_field (fst (ROKTableField_MarshalJSON byte_column))
     = Inr (byte_column\<lparr>ROKTableField.Title := replacement\<rparr>, None)"
    by (simp add: ROKTableField_MarshalJSON_def ROKTableField_UnmarshalJSON_def Unmarshal_slice_def
      panic_bind_def index_def string_or_zero_def assert_bool_def assert_string_def
      byte_column_def zero_field_def toValidUTF8_def rune_len_def)
  have 3: "byte_column\<lparr>ROKTableField.Title := replacement\<rparr> \<noteq> byte_column"
    by (simp add: byte_column_def replacement_def)
  have 4: "decode_template amd64_ovf (Marshal_template number_template) zero_template
     = Inr (zero_template\<lparr>OCRSchema :=
              [(''power'', (NewNumberField None)\<lparr>Callback := ASlice [],
                  AllowList := [AFloat64 0, AFloat64 1, AFloat64 2, AFloat64 3, AFloat64 4,
                                AFloat64 5, AFloat64 6, AFloat64 7, AFloat64 8, AFloat64 9]\<rparr>)]\<rparr>, None)"
    by (simp add: decode_template_def decode_struct_def Marshal_template_def number_template_def
        zero_template_def NewNumberField_def omit_string_def omit_int_def omit_map_def
        omit_array_def omit_crop_def omit_interface_def Marshal_schema_def toValidUTF8_def
        rune_len_def template_field_simps schema_field_simps decode_map_def decode_slice_def
        decode_interface_def decode_string_def decode_int_def map_decoded_def zero_schema_def
        float64_digits)
  have 5: "zero_template\<lparr>OCRSchema :=
         [(''power'', (NewNumberField None)\<lparr>Callback := ASlice [],
             AllowList := [AFloat64 0, AFloat64 1, AFloat64 2, AFloat64 3, AFloat64 4,
                           AFloat64 5, AFloat64 6, AFloat64 7, AFloat64 8, AFloat64 9]\<rparr>)]\<rparr>
       \<noteq> number_template"
    by (simp add: number_template_def zero_template_def NewNumberField_def)
  have 0: "\<lparr>X = 9007199254740992, Y = 0, W = 0, H = 0\<rparr>
       \<noteq> \<lparr>X = 9007199254740993 :: int, Y = 0 :: int, W = 0 :: int, H = 0 :: int\<rparr>"
    by simp
  show ?thesis
    using 1 0 2 3 4 5 by (intro conjI)
qed

text \<open>
  C7. Decoding a fingerprint that is not valid hexadecimal raises nothing and gives a
  hash of kind \<open>DHash\<close>: the hash 0 when at most 16 hexadecimal digits stand before
  the first invalid character, and either 0 or \<open>0xFFFFFFFFFFFFFFFF\<close> otherwise.
  \<open>Hash\<close> decodes the template's fingerprint in the same way.
\<close>

theorem malformed_fingerprint_decodes_to_zero:
  assumes "\<not> valid_hex s"
  shows "(length (takeWhile is_hex_digit s) \<le> 16 \<longrightarrow>
            differenceHashFromString s = Some \<lparr>hash = 0, kind = DHash\<rparr>)
       \<and> (differenceHashFromString s = Some \<lparr>hash = 0, kind = DHash\<rparr>
          \<or> differenceHashFromString s = Some \<lparr>hash = 0xFFFFFFFFFFFFFFFF, kind = DHash\<rparr>)
       \<and> Hash (T\<lparr>Fingerprint := s\<rparr>) = differenceHashFromString s"
proof -
  have short: "ParseUint s = (0, Some ErrSyntax)" if "length (takeWhile is_hex_digit s) \<le> 16"
  proof (cases "s = []")
    case True
    then show ?thesis by (simp add: ParseUint_def)
  next
    case False
    with assms have "\<not> list_all is_hex_digit s" by (simp add: valid_hex_def)
    with False that show ?thesis
      using ParseUint_loop_syntax [of 0 0 s] by (simp add: ParseUint_def)
  qed
  have any: "fst (ParseUint s) = 0 \<or> fst (ParseUint s) = maxVal"
  proof (cases "s = []")
    case True
    then show ?thesis by (simp add: ParseUint_def)
  next
    case False
    with assms have "\<not> list_all is_hex_digit s" by (simp add: valid_hex_def)
    with False show ?thesis
      using ParseUint_loop_result [of 0 s] by (auto simp: ParseUint_def)
  qed
  show ?thesis
    using short any
    by (auto simp: Hash_def differenceHashFromString_def NewImageHash_def maxVal_def
        split: prod.splits)
qed

theorem malformed_fingerprint_decodes_to_zero_witness:
  "\<not> valid_hex ''zz'' \<and> length (takeWhile is_hex_digit ''zz'') \<le> 16
   \<and> differenceHashFromString ''zz'' = Some \<lparr>hash = 0, kind = DHash\<rparr>
   \<and> Hash (zero_template\<lparr>Fingerprint := ''zz''\<rparr>) = Some \<lparr>hash = 0, kind = DHash\<rparr>"
proof -
  have v: "\<not> valid_hex ''zz''" and l: "length (takeWhile is_hex_digit ''zz'') \<le> 16"
    by (simp_all add: valid_hex_def is_hex_digit_def digit_val_def)
  show ?thesis
    using v l malformed_fingerprint_decodes_to_zero [OF v, of zero_template]
    by simp
qed

text \<open>
  A string that is not valid hexadecimal and does not decode to 0: seventeen digits
  \<^verbatim>\<open>f\<close> overflow 64 bits before the invalid \<^verbatim>\<open>zz\<close> is read.
\<close>

theorem malformed_fingerprint_counterexample:
  "\<not> valid_hex ''fffffffffffffffffzz''
   \<and> differenceHashFromString ''fffffffffffffffffzz''
       = Some \<lparr>hash = 0xFFFFFFFFFFFFFFFF, kind = DHash\<rparr>
   \<and> (0xFFFFFFFFFFFFFFFF :: uint64) \<noteq> 0"
  by (simp add: valid_hex_def is_hex_digit_def digit_val_def differenceHashFromString_def
      ParseUint_def cutoff_def maxVal_def NewImageHash_def Let_def)

text \<open>
  C8. \<open>NewNumberField\<close> allows exactly the digits 0 to 9, reads English, and uses page
  segmentation mode 7 and engine mode 1; \<open>NewTextField\<close> uses the same two modes, the
  languages of the caller, and no allow-list. Both keep the crop area they are given.
\<close>

theorem field_presets:
  "AllowList (NewNumberField cropArea) = map AInt [0..9]
   \<and> Languages (NewNumberField cropArea) = [''eng'']
   \<and> PSM (NewNumberField cropArea) = 7
   \<and> OEM (NewNumberField cropArea) = 1
   \<and> Crop (NewNumberField cropArea) = cropArea
   \<and> PSM (NewTextField cropArea languages) = 7
   \<and> OEM (NewTextField cropArea languages) = 1
   \<and> Languages (NewTextField cropArea languages) = languages
   \<and> AllowList (NewTextField cropArea languages) = []
   \<and> Crop (NewTextField cropArea languages) = cropArea"
proof -
  have "[0..9] = [0, 1, 2, 3, 4, 5, 6, 7, 8, 9 :: int]" by code_simp
  then show ?thesis by (simp add: NewNumberField_def NewTextField_def)
qed

text \<open>
  C9. \<open>LoadTemplate\<close> returns what \<^verbatim>\<open>json.Unmarshal\<close> returns on the bytes that
  \<^verbatim>\<open>ReadFile\<close> gave, starting from the zero template: the error of \<^verbatim>\<open>ReadFile\<close> is not
  part of the result. When no byte was read the result is the zero template with the
  syntax error of the empty input; when the bytes are a document, the result is that of
  decoding it, error included.
\<close>

theorem LoadTemplate_discards_read_error:
  assumes "scan [] = None"
  shows "LoadTemplate ReadFile scan decode f
           = json_Unmarshal scan decode (fst (ReadFile f)) zero_template
       \<and> (fst (ReadFile f) = [] \<longrightarrow>
            LoadTemplate ReadFile scan decode f = Inr (zero_template, Some SyntaxError))
       \<and> (\<forall>doc. scan (fst (ReadFile f)) = Some doc \<longrightarrow>
            LoadTemplate ReadFile scan decode f = decode doc zero_template)"
  using assms by (simp add: LoadTemplate_def json_Unmarshal_def split: prod.splits)

theorem LoadTemplate_discards_read_error_witness:
  "stub_scan [] = None
   \<and> fst (stub_ReadFile ''missing.json'') = []
   \<and> snd (stub_ReadFile ''missing.json'') = Some PathError
   \<and> LoadTemplate stub_ReadFile stub_scan stub_decode ''missing.json''
       = Inr (zero_template, Some SyntaxError)"
proof -
  have s: "stub_scan [] = None" by (simp add: stub_scan_def)
  have r: "fst (stub_ReadFile ''missing.json'') = []"
    and e: "snd (stub_ReadFile ''missing.json'') = Some PathError"
    by (simp_all add: stub_ReadFile_def)
  have "LoadTemplate stub_ReadFile stub_scan stub_decode ''missing.json''
      = Inr (zero_template, Some SyntaxError)"
    using LoadTemplate_discards_read_error
      [where scan = stub_scan and ReadFile = stub_ReadFile and f = "''missing.json''"
         and decode = stub_decode, OF s, THEN conjunct2, THEN conjunct1] r
    by blast
  then show ?thesis using s r e by (intro conjI)
qed

text \<open>
  C10. \<open>LoadTemplate\<close> returns the template that the decoder produced as it is, so a
  negative threshold is accepted; and a template without checkpoints whose threshold is
  negative matches no image.
\<close>

theorem negative_threshold_never_matches:
  assumes "Checkpoints T = []" and "Threshold T < 0"
  shows "(scan (fst (ReadFile f)) = Some doc \<and> decode doc zero_template = Inr (T, None) \<longrightarrow>
            LoadTemplate ReadFile scan decode f = Inr (T, None))
       \<and> Matches dhash CropImage T (Some i) = Inr False"
  using assms
  by (simp add: LoadTemplate_def json_Unmarshal_def Matches_def DifferenceHash_def Match_image
      split: prod.splits)

theorem negative_threshold_never_matches_witness:
  "Checkpoints negative_template = [] \<and> Threshold negative_template < 0
   \<and> stub_scan (fst (stub_ReadFile ''negative.json'')) = Some (JObject [(''threshold'', JNumber (- 1))])
   \<and> stub_decode (JObject [(''threshold'', JNumber (- 1))]) zero_template = Inr (negative_template, None)
   \<and> LoadTemplate stub_ReadFile stub_scan stub_decode ''negative.json'' = Inr (negative_template, None)
   \<and> Matches stub_dhash stub_crop negative_template (Some 0) = Inr False"
proof -
  have c: "Checkpoints negative_template = []" and t: "Threshold negative_template < 0"
    by (simp_all add: negative_template_def zero_template_def)
  have s: "stub_scan (fst (stub_ReadFile ''negative.json'')) = Some (JObject [(''threshold'', JNumber (- 1))])"
    by (simp add: stub_scan_def stub_ReadFile_def)
  have "\<lfloor>- 1 :: rat\<rfloor> = - 1" by (metis floor_of_int of_int_1 of_int_minus)
  then have d: "stub_decode (JObject [(''threshold'', JNumber (- 1))]) zero_template = Inr (negative_template, None)"
    by (simp add: stub_decode_def negative_template_def zero_template_def)
  show ?thesis
    using c t s d
      negative_threshold_never_matches [OF c t, of stub_scan stub_ReadFile "''negative.json''"
        "JObject [(''threshold'', JNumber (- 1))]" stub_decode stub_dhash stub_crop 0]
    by simp
qed


end
